theory Spec2Isabelle
  imports Main "HOL-Library.AList" "HOL-Library.Multiset"
begin

section \<open>Rewards tree generator, ruleset v9/v10 with rolling record\<close>

text \<open>
  A shallow embedding of \<^verbatim>\<open>shared/services/rewards/generator-impl-v9-v10-rolling.go\<close>.
  Go's \<^verbatim>\<open>*big.Int\<close> is \<^typ>\<open>int\<close>; addresses, network ids (\<^verbatim>\<open>RewardNetwork.Uint64()\<close>)
  and slots are \<^typ>\<open>nat\<close>. The generator's Go maps that the code ranges over are association
  lists in insertion order; maps that are only looked up are partial functions. Every
  \<^verbatim>\<open>return err\<close> and every panic (nil dereference, division by zero) is an \<open>Inl\<close> result.
\<close>

subsection \<open>Errors and arithmetic\<close>

datatype error =
    NoPendingRewards
  | NodeWeightsError
  | NetworkEnabledError
  | CollateralTotalError
  | ODaoTotalError
  | SmoothingPoolTotalError
  | FeeAboveMaximum
  | BeaconBlockError
  | BeaconBlockMissing
  | HeaderError
  | MerkleTreeError
  | Panic

type_synonym address = nat

text \<open>\<^verbatim>\<open>big.Int.Div\<close> is Euclidean division (the remainder is never negative); it panics on a
  zero divisor, which the callers below test for where the divisor is not a constant.\<close>

definition big_Div :: "int \<Rightarrow> int \<Rightarrow> int" where
  "big_Div x y = (if 0 < y then x div y else - (x div (- y)))"

text \<open>\<^verbatim>\<open>big.Int.Quo\<close> truncates towards zero.\<close>

definition big_Quo :: "int \<Rightarrow> int \<Rightarrow> int" where
  "big_Quo x y = sgn x * sgn y * (\<bar>x\<bar> div \<bar>y\<bar>)"

text \<open>The conversion \<^verbatim>\<open>int64(n)\<close> of an unsigned 64-bit value wraps into the signed range.\<close>

definition int64 :: "nat \<Rightarrow> int" where
  "int64 n = (int n + 2 ^ 63) mod 2 ^ 64 - 2 ^ 63"

text \<open>The package-level constants are declared outside this file; their values are the ones
  their names and the comment in \<^verbatim>\<open>calculateNodeBonuses\<close> state.\<close>

definition oneEth :: int where "oneEth = 1000000000000000000"
definition tenEth :: int where "tenEth = 10 * oneEth"
definition pointOhFourEth :: int where "pointOhFourEth = 40000000000000000"
definition pointOneEth :: int where "pointOneEth = 100000000000000000"
definition fourteenPercentEth :: int where "fourteenPercentEth = 140000000000000000"
definition thirtyTwoEth :: int where "thirtyTwoEth = 32 * oneEth"

subsection \<open>Network state snapshot\<close>

record NativeNodeDetails =
  NodeAddress :: address
  RewardNetwork :: nat

record NativeMinipoolDetails =
  MinipoolAddress :: address
  NodeFee :: int
  NodeDepositBalance :: int
  PenaltyCount :: int

record OracleDaoMemberDetails =
  Address :: address
  JoinedTime :: int

record NetworkDetails =
  PendingRPLRewards :: int
  ProtocolDaoRewardsPercent :: int
  NodeOperatorRewardsPercent :: int
  TrustedNodeOperatorRewardsPercent :: int
  SmoothingPoolBalance :: int
  IntervalDuration :: int

text \<open>Durations and \<open>JoinedTime\<close> are in nanoseconds, as \<^verbatim>\<open>time.Duration\<close> and
  \<^verbatim>\<open>time.Time\<close> are. \<open>Seconds d\<close> stands for \<^verbatim>\<open>int64(d.Seconds())\<close>, which goes through
  a \<^verbatim>\<open>float64\<close>; it is a field of the state, left uninterpreted.
  \<open>CalculateNodeWeights\<close> and \<open>PercentOfBorrowedEth\<close> (the result of
  \<^verbatim>\<open>GetStakedRplValueInEthAndPercentOfBorrowedEth\<close> on \<^verbatim>\<open>GetEligibleBorrowedEth\<close>) are computed
  by the state package; they are fields here, so every theorem holds for whatever they return.\<close>

record NetworkState =
  NodeDetails :: "NativeNodeDetails list"
  NodeDetailsByAddress :: "address \<rightharpoonup> NativeNodeDetails"
  MinipoolDetails :: "NativeMinipoolDetails list"
  MinipoolDetailsByNode :: "address \<Rightarrow> NativeMinipoolDetails list"
  MinipoolDetailsByAddress :: "address \<rightharpoonup> NativeMinipoolDetails"
  OracleDaoMembers :: "OracleDaoMemberDetails list"
  Details :: NetworkDetails
  CalculateNodeWeights :: "error + ((address \<rightharpoonup> int) \<times> int)"
  PercentOfBorrowedEth :: "NativeNodeDetails \<Rightarrow> int"
  Seconds :: "int \<Rightarrow> int"

subsection \<open>Rewards file and generator state\<close>

record NodeReward =
  nr_Network :: nat
  nr_CollateralRpl :: int
  nr_OracleDaoRpl :: int
  nr_SmoothingPoolEth :: int

record NetworkReward =
  nw_CollateralRpl :: int
  nw_OracleDaoRpl :: int
  nw_SmoothingPoolEth :: int

record TotalRewards =
  ProtocolDaoRpl :: int
  TotalCollateralRpl :: int
  TotalOracleDaoRpl :: int
  TotalSmoothingPoolEth :: int
  PoolStakerSmoothingPoolEth :: int
  NodeOperatorSmoothingPoolEth :: int
  TotalNodeWeight :: int

definition NewNodeReward :: "nat \<Rightarrow> NodeReward" where
  "NewNodeReward network =
     \<lparr>nr_Network = network, nr_CollateralRpl = 0, nr_OracleDaoRpl = 0, nr_SmoothingPoolEth = 0\<rparr>"

definition NewNetworkReward :: NetworkReward where
  "NewNetworkReward = \<lparr>nw_CollateralRpl = 0, nw_OracleDaoRpl = 0, nw_SmoothingPoolEth = 0\<rparr>"

text \<open>The execution and consensus clients: \<^verbatim>\<open>GetNetworkEnabled\<close> at the snapshot block,
  \<^verbatim>\<open>GetBeaconBlock\<close> (the block's execution block number when the slot has a block) and the
  timestamp of \<^verbatim>\<open>HeaderByNumber\<close>.\<close>

record clients =
  GetNetworkEnabled :: "nat \<Rightarrow> error + bool"
  GetBeaconBlock :: "nat \<Rightarrow> error + nat option"
  HeaderByNumber :: "nat \<Rightarrow> error + nat"

record MinipoolInfo =
  mp_Address :: address
  mp_NodeAddress :: address
  AttestationScore :: int
  AttestationCount :: nat
  MissingAttestationSlots :: "nat list"
  IsEligibleForBonuses :: bool
  NodeOperatorBond :: int
  MinipoolShare :: int
  MinipoolBonus :: "int option"
  ConsensusIncome :: "int option"
  TotalFee :: int

record RollingRecord =
  StartSlot :: nat
  GetScores :: "address set \<Rightarrow> MinipoolInfo list \<times> int \<times> nat"

record NodeSmoothingDetails =
  nsd_Address :: address
  IsEligible :: bool
  Minipools :: "MinipoolInfo list"
  nsd_SmoothingPoolEth :: int
  BonusEth :: int
  RewardsNetwork :: nat

record SmoothingPoolMinipoolPerformance =
  SuccessfulAttestations :: nat
  MissedAttestations :: nat
  perf_AttestationScore :: int
  EthEarned :: int
  BonusEthEarned :: "int option"
  perf_ConsensusIncome :: "int option"
  EffectiveCommission :: int
  perf_MissingAttestationSlots :: "nat list"

record treeGenerator =
  networkState :: NetworkState
  rollingRecord :: RollingRecord
  RulesetVersion :: nat
  Index :: nat
  elSnapshotTime :: nat
  totals :: TotalRewards
  validNetworkCache :: "nat \<rightharpoonup> bool"
  invalidNetworkNodes :: "address \<rightharpoonup> nat"
  epsilon :: int
  smoothingPoolBalance :: int
  intervalSeconds :: int
  nodeDetails :: "(address \<times> NodeSmoothingDetails) list"
  nodeRewards :: "(address \<times> NodeReward) list"
  networkRewards :: "(nat \<times> NetworkReward) list"
  BonusScalar :: "int option"
  MinipoolPerformance :: "(address \<times> SmoothingPoolMinipoolPerformance) list"

definition newTreeGenerator ::
  "nat \<Rightarrow> nat \<Rightarrow> nat \<Rightarrow> NetworkState \<Rightarrow> RollingRecord \<Rightarrow> treeGenerator" where
  "newTreeGenerator rulesetVersion index snapshotTime state record =
     \<lparr>networkState = state, rollingRecord = record, RulesetVersion = rulesetVersion,
      Index = index, elSnapshotTime = snapshotTime,
      totals = \<lparr>ProtocolDaoRpl = 0, TotalCollateralRpl = 0, TotalOracleDaoRpl = 0,
        TotalSmoothingPoolEth = 0, PoolStakerSmoothingPoolEth = 0,
        NodeOperatorSmoothingPoolEth = 0, TotalNodeWeight = 0\<rparr>,
      validNetworkCache = Map.empty, invalidNetworkNodes = Map.empty, epsilon = 0,
      smoothingPoolBalance = 0, intervalSeconds = 0, nodeDetails = [], nodeRewards = [],
      networkRewards = [], BonusScalar = None, MinipoolPerformance = []\<rparr>"

subsection \<open>Network validation and the accumulators\<close>

definition validateNetwork :: "clients \<Rightarrow> treeGenerator \<Rightarrow> nat \<Rightarrow> error + (bool \<times> treeGenerator)" where
  "validateNetwork rp r network =
     (case validNetworkCache r network of
        Some valid \<Rightarrow> Inr (valid, r)
      | None \<Rightarrow>
          (case GetNetworkEnabled rp network of
             Inl e \<Rightarrow> Inl e
           | Inr valid \<Rightarrow> Inr (valid, r\<lparr>validNetworkCache := (validNetworkCache r)(network \<mapsto> valid)\<rparr>)))"

text \<open>The block that all three allocation loops repeat: look the node up in \<open>nodeRewards\<close>,
  and when it is absent validate its network, report an invalid one, and insert a fresh entry.
  The network is an \<open>error + nat\<close> because the oDAO loop reads it through
  \<open>NodeDetailsByAddress\<close>, a nil dereference when the address is unknown; it is only
  inspected when the entry is absent, as in the source.\<close>

definition getNodeReward ::
  "clients \<Rightarrow> treeGenerator \<Rightarrow> address \<Rightarrow> error + nat \<Rightarrow> error + (NodeReward \<times> treeGenerator)" where
  "getNodeReward rp r a networkOf =
     (case map_of (nodeRewards r) a of
        Some rewardsForNode \<Rightarrow> Inr (rewardsForNode, r)
      | None \<Rightarrow>
          (case networkOf of
             Inl e \<Rightarrow> Inl e
           | Inr network \<Rightarrow>
               (case validateNetwork rp r network of
                  Inl e \<Rightarrow> Inl e
                | Inr (validNetwork, r1) \<Rightarrow>
                    (let r2 = (if validNetwork then r1
                               else r1\<lparr>invalidNetworkNodes := (invalidNetworkNodes r1)(a \<mapsto> network)\<rparr>);
                         rewardsForNode = NewNodeReward (if validNetwork then network else 0)
                     in Inr (rewardsForNode,
                             r2\<lparr>nodeRewards := AList.update a rewardsForNode (nodeRewards r2)\<rparr>)))))"

definition getNetworkReward :: "treeGenerator \<Rightarrow> nat \<Rightarrow> NetworkReward" where
  "getNetworkReward r network =
     (case map_of (networkRewards r) network of
        Some rewardsForNetwork \<Rightarrow> rewardsForNetwork
      | None \<Rightarrow> NewNetworkReward)"

subsection \<open>RPL rewards\<close>

text \<open>The only call has a positive \<open>totalNodeWeight\<close>, so the quotient never panics.\<close>

definition calculateNodeRplRewards :: "int \<Rightarrow> int \<Rightarrow> int \<Rightarrow> int" where
  "calculateNodeRplRewards collateralRewards nodeWeight totalNodeWeight =
     (if nodeWeight \<le> 0 then 0
      else big_Quo (collateralRewards * nodeWeight) totalNodeWeight)"

definition addCollateralRpl ::
  "clients \<Rightarrow> treeGenerator \<Rightarrow> NativeNodeDetails \<Rightarrow> int \<Rightarrow> error + treeGenerator" where
  "addCollateralRpl rp r nd nodeRplRewards =
     (case getNodeReward rp r (NodeAddress nd) (Inr (RewardNetwork nd)) of
        Inl e \<Rightarrow> Inl e
      | Inr (rewardsForNode, r1) \<Rightarrow>
          (let r2 = r1\<lparr>nodeRewards := AList.update (NodeAddress nd)
                      (rewardsForNode\<lparr>nr_CollateralRpl := nr_CollateralRpl rewardsForNode + nodeRplRewards\<rparr>)
                      (nodeRewards r1)\<rparr>;
               network = nr_Network rewardsForNode;
               rewardsForNetwork = getNetworkReward r2 network
           in Inr (r2\<lparr>networkRewards := AList.update network
                      (rewardsForNetwork\<lparr>nw_CollateralRpl := nw_CollateralRpl rewardsForNetwork + nodeRplRewards\<rparr>)
                      (networkRewards r2)\<rparr>)))"

text \<open>The loop over \<open>NodeDetails\<close>; a node missing from the weight map is a nil
  \<^verbatim>\<open>*big.Int\<close>, whose \<^verbatim>\<open>Sign\<close> panics.\<close>

fun collateralLoop ::
  "clients \<Rightarrow> (address \<rightharpoonup> int) \<Rightarrow> int \<Rightarrow> int \<Rightarrow> NativeNodeDetails list \<Rightarrow> treeGenerator
     \<Rightarrow> error + treeGenerator" where
  "collateralLoop rp nodeWeights totalNodeRewards totalNodeWeight [] r = Inr r"
| "collateralLoop rp nodeWeights totalNodeRewards totalNodeWeight (nd # nds) r =
     (case nodeWeights (NodeAddress nd) of
        None \<Rightarrow> Inl Panic
      | Some nodeWeight \<Rightarrow>
          (let nodeRplRewards = calculateNodeRplRewards totalNodeRewards nodeWeight totalNodeWeight
           in if 0 < nodeRplRewards
              then (case addCollateralRpl rp r nd nodeRplRewards of
                      Inl e \<Rightarrow> Inl e
                    | Inr r1 \<Rightarrow> collateralLoop rp nodeWeights totalNodeRewards totalNodeWeight nds r1)
              else collateralLoop rp nodeWeights totalNodeRewards totalNodeWeight nds r))"

definition sumCollateralRpl :: "treeGenerator \<Rightarrow> int" where
  "sumCollateralRpl r = sum_list (map (\<lambda>(network, w). nw_CollateralRpl w) (networkRewards r))"

definition sumOracleDaoRpl :: "treeGenerator \<Rightarrow> int" where
  "sumOracleDaoRpl r = sum_list (map (\<lambda>(network, w). nw_OracleDaoRpl w) (networkRewards r))"

text \<open>The first half of \<^verbatim>\<open>calculateRplRewards\<close>, up to the oDAO part: it returns the generator
  and the running value of \<open>pDaoRewards\<close>.\<close>

definition collateralRewards :: "clients \<Rightarrow> treeGenerator \<Rightarrow> error + (treeGenerator \<times> int)" where
  "collateralRewards rp r =
     (let st = networkState r;
          pendingRewards = PendingRPLRewards (Details st)
      in if pendingRewards = 0 then Inl NoPendingRewards
         else
           (let pDaoRewards = big_Div (pendingRewards * ProtocolDaoRewardsPercent (Details st)) oneEth;
                totalNodeRewards = big_Div (pendingRewards * NodeOperatorRewardsPercent (Details st)) oneEth
            in case CalculateNodeWeights st of
                 Inl e \<Rightarrow> Inl e
               | Inr (nodeWeights, totalNodeWeight) \<Rightarrow>
                   if 0 < totalNodeWeight
                   then
                     (let r0 = r\<lparr>totals := (totals r)\<lparr>TotalNodeWeight := totalNodeWeight\<rparr>\<rparr>
                      in case collateralLoop rp nodeWeights totalNodeRewards totalNodeWeight (NodeDetails st) r0 of
                           Inl e \<Rightarrow> Inl e
                         | Inr r1 \<Rightarrow>
                             (let totalCalculatedNodeRewards = sumCollateralRpl r1;
                                  delta = \<bar>totalNodeRewards - totalCalculatedNodeRewards\<bar>
                              in if epsilon r1 < delta then Inl CollateralTotalError
                                 else Inr (r1\<lparr>totals := (totals r1)\<lparr>TotalCollateralRpl := totalCalculatedNodeRewards\<rparr>\<rparr>,
                                           pendingRewards - totalCalculatedNodeRewards)))
                   else Inr (r, pDaoRewards + totalNodeRewards)))"

text \<open>\<^verbatim>\<open>time.Time.Sub\<close> saturates at the bounds of \<^verbatim>\<open>int64\<close>.\<close>

definition time_Sub :: "int \<Rightarrow> int \<Rightarrow> int" where
  "time_Sub t u = max (- (2 ^ 63)) (min (2 ^ 63 - 1) (t - u))"

definition participationTime :: "treeGenerator \<Rightarrow> OracleDaoMemberDetails \<Rightarrow> int" where
  "participationTime r details =
     (let st = networkState r;
          intervalDuration = IntervalDuration (Details st);
          snapshotBlockTime = int64 (elSnapshotTime r) * 1000000000;
          eligibleDuration = time_Sub snapshotBlockTime (JoinedTime details)
      in if eligibleDuration < intervalDuration then Seconds st eligibleDuration
         else Seconds st intervalDuration)"

fun oDaoNodeTimes ::
  "treeGenerator \<Rightarrow> OracleDaoMemberDetails list \<Rightarrow> (address \<rightharpoonup> int) \<times> int \<Rightarrow> (address \<rightharpoonup> int) \<times> int" where
  "oDaoNodeTimes r [] acc = acc"
| "oDaoNodeTimes r (details # ds) (trueODaoNodeTimes, totalODaoNodeTime) =
     oDaoNodeTimes r ds
       (trueODaoNodeTimes(Address details \<mapsto> participationTime r details),
        totalODaoNodeTime + participationTime r details)"

definition addOracleDaoRpl ::
  "clients \<Rightarrow> treeGenerator \<Rightarrow> address \<Rightarrow> int \<Rightarrow> error + treeGenerator" where
  "addOracleDaoRpl rp r address individualOdaoRewards =
     (case getNodeReward rp r address
             (case NodeDetailsByAddress (networkState r) address of
                None \<Rightarrow> Inl Panic
              | Some nd \<Rightarrow> Inr (RewardNetwork nd)) of
        Inl e \<Rightarrow> Inl e
      | Inr (rewardsForNode, r1) \<Rightarrow>
          (let r2 = r1\<lparr>nodeRewards := AList.update address
                      (rewardsForNode\<lparr>nr_OracleDaoRpl := nr_OracleDaoRpl rewardsForNode + individualOdaoRewards\<rparr>)
                      (nodeRewards r1)\<rparr>;
               network = nr_Network rewardsForNode;
               rewardsForNetwork = getNetworkReward r2 network
           in Inr (r2\<lparr>networkRewards := AList.update network
                      (rewardsForNetwork\<lparr>nw_OracleDaoRpl := nw_OracleDaoRpl rewardsForNetwork + individualOdaoRewards\<rparr>)
                      (networkRewards r2)\<rparr>)))"

definition individualOdaoRewards :: "(address \<rightharpoonup> int) \<Rightarrow> int \<Rightarrow> int \<Rightarrow> address \<Rightarrow> error + int" where
  "individualOdaoRewards trueODaoNodeTimes totalODaoRewards totalODaoNodeTime address =
     (case trueODaoNodeTimes address of
        None \<Rightarrow> Inl Panic
      | Some t \<Rightarrow> if totalODaoNodeTime = 0 then Inl Panic
                  else Inr (big_Div (t * totalODaoRewards) totalODaoNodeTime))"

fun oDaoLoop ::
  "clients \<Rightarrow> (address \<rightharpoonup> int) \<Rightarrow> int \<Rightarrow> int \<Rightarrow> OracleDaoMemberDetails list \<Rightarrow> treeGenerator
     \<Rightarrow> error + treeGenerator" where
  "oDaoLoop rp trueODaoNodeTimes totalODaoRewards totalODaoNodeTime [] r = Inr r"
| "oDaoLoop rp trueODaoNodeTimes totalODaoRewards totalODaoNodeTime (details # ds) r =
     (case individualOdaoRewards trueODaoNodeTimes totalODaoRewards totalODaoNodeTime (Address details) of
        Inl e \<Rightarrow> Inl e
      | Inr x \<Rightarrow>
          (case addOracleDaoRpl rp r (Address details) x of
             Inl e \<Rightarrow> Inl e
           | Inr r1 \<Rightarrow> oDaoLoop rp trueODaoNodeTimes totalODaoRewards totalODaoNodeTime ds r1))"

text \<open>The second half of \<^verbatim>\<open>calculateRplRewards\<close>, from "Handle Oracle DAO rewards" on.\<close>

definition oDaoRewards :: "clients \<Rightarrow> treeGenerator \<Rightarrow> int \<Rightarrow> error + treeGenerator" where
  "oDaoRewards rp r pDaoRewards =
     (let st = networkState r;
          pendingRewards = PendingRPLRewards (Details st);
          totalODaoRewards = big_Div (pendingRewards * TrustedNodeOperatorRewardsPercent (Details st)) oneEth;
          oDaoDetails = OracleDaoMembers st;
          (trueODaoNodeTimes, totalODaoNodeTime) = oDaoNodeTimes r oDaoDetails (Map.empty, 0)
      in case oDaoLoop rp trueODaoNodeTimes totalODaoRewards totalODaoNodeTime oDaoDetails r of
           Inl e \<Rightarrow> Inl e
         | Inr r1 \<Rightarrow>
             (let totalCalculatedOdaoRewards = sumOracleDaoRpl r1;
                  delta = \<bar>totalODaoRewards - totalCalculatedOdaoRewards\<bar>
              in if epsilon r1 < delta then Inl ODaoTotalError
                 else Inr (r1\<lparr>totals := (totals r1)
                             \<lparr>TotalOracleDaoRpl := totalCalculatedOdaoRewards,
                              ProtocolDaoRpl := pDaoRewards - totalCalculatedOdaoRewards\<rparr>\<rparr>)))"

definition calculateRplRewards :: "clients \<Rightarrow> treeGenerator \<Rightarrow> error + treeGenerator" where
  "calculateRplRewards rp r =
     (case collateralRewards rp r of
        Inl e \<Rightarrow> Inl e
      | Inr (r1, pDaoRewards) \<Rightarrow> oDaoRewards rp r1 pDaoRewards)"

subsection \<open>Cheaters and smoothing pool shares\<close>

definition isCheater :: "NetworkState \<Rightarrow> NativeNodeDetails \<Rightarrow> bool" where
  "isCheater st nd = list_ex (\<lambda>mpd. 3 \<le> PenaltyCount mpd) (MinipoolDetailsByNode st (NodeAddress nd))"

definition getCheaters :: "treeGenerator \<Rightarrow> address set" where
  "getCheaters r =
     set (map NodeAddress (filter (isCheater (networkState r)) (NodeDetails (networkState r))))"

definition newNodeSmoothingDetails :: "NativeNodeDetails \<Rightarrow> bool \<Rightarrow> NodeSmoothingDetails" where
  "newNodeSmoothingDetails nnd nodeIsCheater =
     \<lparr>nsd_Address = NodeAddress nnd, IsEligible = (\<not> nodeIsCheater), Minipools = [],
      nsd_SmoothingPoolEth = 0, BonusEth = 0, RewardsNetwork = RewardNetwork nnd\<rparr>"

text \<open>The loop over the scored minipools that fills \<open>nodeDetails\<close>. Both lookups in the
  network state yield nil pointers for unknown addresses, dereferenced where the model
  returns \<open>Panic\<close>.\<close>

fun minipoolLoop ::
  "NetworkState \<Rightarrow> address set \<Rightarrow> int \<Rightarrow> int \<Rightarrow> MinipoolInfo list
     \<Rightarrow> (address \<times> NodeSmoothingDetails) list \<Rightarrow> error + (address \<times> NodeSmoothingDetails) list" where
  "minipoolLoop st cheaters totalNodeOpShare totalScore [] nds = Inr nds"
| "minipoolLoop st cheaters totalNodeOpShare totalScore (minipool # ms) nds =
     (case (case map_of nds (mp_NodeAddress minipool) of
              Some nodeInfo \<Rightarrow> Inr nodeInfo
            | None \<Rightarrow>
                (case NodeDetailsByAddress st (mp_NodeAddress minipool) of
                   None \<Rightarrow> Inl Panic
                 | Some nnd \<Rightarrow>
                     Inr (newNodeSmoothingDetails nnd (mp_NodeAddress minipool \<in> cheaters)))) of
        Inl e \<Rightarrow> Inl e
      | Inr nodeInfo \<Rightarrow>
          (case MinipoolDetailsByAddress st (mp_Address minipool) of
             None \<Rightarrow> Inl Panic
           | Some nmd \<Rightarrow>
               (let minipoolEth = big_Div (totalNodeOpShare * AttestationScore minipool) totalScore;
                    minipool1 = minipool\<lparr>NodeOperatorBond := NodeDepositBalance nmd,
                                         MinipoolShare := minipoolEth\<rparr>;
                    nodeInfo1 = nodeInfo\<lparr>Minipools := Minipools nodeInfo @ [minipool1],
                                         nsd_SmoothingPoolEth := nsd_SmoothingPoolEth nodeInfo + minipoolEth\<rparr>
                in minipoolLoop st cheaters totalNodeOpShare totalScore ms
                     (AList.update (mp_NodeAddress minipool) nodeInfo1 nds))))"

subsection \<open>Bonuses\<close>

definition feeWithBonus :: "int \<Rightarrow> int" where
  "feeWithBonus percentOfBorrowedEth =
     big_Div (min tenEth percentOfBorrowedEth * pointOhFourEth) tenEth + pointOneEth"

text \<open>The body of the inner loop of \<^verbatim>\<open>calculateNodeBonuses\<close> for one minipool, given the
  minipool's details \<open>mpi\<close> and the fee floor; it returns the updated minipool and the bonus
  added to the totals (nothing is added on the two \<^verbatim>\<open>continue\<close> paths).\<close>

definition minipoolBonus ::
  "NativeMinipoolDetails \<Rightarrow> int \<Rightarrow> MinipoolInfo \<Rightarrow> error + (MinipoolInfo \<times> int)" where
  "minipoolBonus mpi fee mpd =
     (if \<not> IsEligibleForBonuses mpd
      then Inr (mpd\<lparr>MinipoolBonus := None, ConsensusIncome := None\<rparr>, 0)
      else if fee \<le> NodeFee mpi
      then Inr (mpd\<lparr>MinipoolBonus := None, ConsensusIncome := None\<rparr>, 0)
      else if fourteenPercentEth < fee then Inl FeeAboveMaximum
      else
        (case ConsensusIncome mpd of
           None \<Rightarrow> Inl Panic
         | Some consensusIncome \<Rightarrow>
             (let bonusFee = fee - NodeFee mpi;
                  bonusShare = big_Div (bonusFee * (thirtyTwoEth - NodeDepositBalance mpi)) thirtyTwoEth;
                  bonus = big_Div (consensusIncome * bonusShare) oneEth;
                  bonus1 = (if bonus < 0 then 0 else bonus)
              in Inr (mpd\<lparr>TotalFee := fee, MinipoolBonus := Some bonus1\<rparr>, bonus1))))"

fun minipoolBonuses ::
  "NetworkState \<Rightarrow> int \<Rightarrow> MinipoolInfo list \<Rightarrow> error + (MinipoolInfo list \<times> int)" where
  "minipoolBonuses st percentOfBorrowedEth [] = Inr ([], 0)"
| "minipoolBonuses st percentOfBorrowedEth (mpd # mpds) =
     (case MinipoolDetailsByAddress st (mp_Address mpd) of
        None \<Rightarrow> Inl Panic
      | Some mpi \<Rightarrow>
          (case minipoolBonus mpi (feeWithBonus percentOfBorrowedEth) mpd of
             Inl e \<Rightarrow> Inl e
           | Inr (mpd1, bonus) \<Rightarrow>
               (case minipoolBonuses st percentOfBorrowedEth mpds of
                  Inl e \<Rightarrow> Inl e
                | Inr (mpds1, bonuses) \<Rightarrow> Inr (mpd1 # mpds1, bonus + bonuses))))"

definition nodeBonuses :: "NetworkState \<Rightarrow> NodeSmoothingDetails \<Rightarrow> error + (NodeSmoothingDetails \<times> int)" where
  "nodeBonuses st nsd =
     (if \<not> IsEligible nsd then Inr (nsd, 0)
      else
        (case NodeDetailsByAddress st (nsd_Address nsd) of
           None \<Rightarrow> Inl Panic
         | Some nd \<Rightarrow>
             (case minipoolBonuses st (PercentOfBorrowedEth st nd) (Minipools nsd) of
                Inl e \<Rightarrow> Inl e
              | Inr (mpds, bonuses) \<Rightarrow>
                  Inr (nsd\<lparr>Minipools := mpds, BonusEth := BonusEth nsd + bonuses\<rparr>, bonuses))))"

fun calculateNodeBonuses ::
  "NetworkState \<Rightarrow> (address \<times> NodeSmoothingDetails) list
     \<Rightarrow> error + ((address \<times> NodeSmoothingDetails) list \<times> int)" where
  "calculateNodeBonuses st [] = Inr ([], 0)"
| "calculateNodeBonuses st ((a, nsd) # nds) =
     (case nodeBonuses st nsd of
        Inl e \<Rightarrow> Inl e
      | Inr (nsd1, bonus) \<Rightarrow>
          (case calculateNodeBonuses st nds of
             Inl e \<Rightarrow> Inl e
           | Inr (nds1, bonuses) \<Rightarrow> Inr ((a, nsd1) # nds1, bonus + bonuses)))"

text \<open>Scaling the bonuses down; \<^verbatim>\<open>mpd.MinipoolBonus.Mul\<close> on a minipool whose bonus is nil
  is a nil dereference.\<close>

definition scaleMinipoolBonus :: "int \<Rightarrow> int \<Rightarrow> MinipoolInfo \<Rightarrow> error + MinipoolInfo" where
  "scaleMinipoolBonus remainingBalance totalConsensusBonus mpd =
     (case MinipoolBonus mpd of
        None \<Rightarrow> Inl Panic
      | Some bonus \<Rightarrow>
          Inr (mpd\<lparr>MinipoolBonus := Some (big_Div (bonus * remainingBalance) totalConsensusBonus)\<rparr>))"

fun scaleMinipoolBonuses :: "int \<Rightarrow> int \<Rightarrow> MinipoolInfo list \<Rightarrow> error + MinipoolInfo list" where
  "scaleMinipoolBonuses remainingBalance totalConsensusBonus [] = Inr []"
| "scaleMinipoolBonuses remainingBalance totalConsensusBonus (mpd # mpds) =
     (case scaleMinipoolBonus remainingBalance totalConsensusBonus mpd of
        Inl e \<Rightarrow> Inl e
      | Inr mpd1 \<Rightarrow>
          (case scaleMinipoolBonuses remainingBalance totalConsensusBonus mpds of
             Inl e \<Rightarrow> Inl e
           | Inr mpds1 \<Rightarrow> Inr (mpd1 # mpds1)))"

definition scaleNodeBonus :: "int \<Rightarrow> int \<Rightarrow> NodeSmoothingDetails \<Rightarrow> error + NodeSmoothingDetails" where
  "scaleNodeBonus remainingBalance totalConsensusBonus nsd =
     (case scaleMinipoolBonuses remainingBalance totalConsensusBonus (Minipools nsd) of
        Inl e \<Rightarrow> Inl e
      | Inr mpds \<Rightarrow>
          Inr (nsd\<lparr>BonusEth := big_Div (BonusEth nsd * remainingBalance) totalConsensusBonus,
                   Minipools := mpds\<rparr>))"

fun scaleBonuses ::
  "int \<Rightarrow> int \<Rightarrow> (address \<times> NodeSmoothingDetails) list \<Rightarrow> error + (address \<times> NodeSmoothingDetails) list" where
  "scaleBonuses remainingBalance totalConsensusBonus [] = Inr []"
| "scaleBonuses remainingBalance totalConsensusBonus ((a, nsd) # nds) =
     (case scaleNodeBonus remainingBalance totalConsensusBonus nsd of
        Inl e \<Rightarrow> Inl e
      | Inr nsd1 \<Rightarrow>
          (case scaleBonuses remainingBalance totalConsensusBonus nds of
             Inl e \<Rightarrow> Inl e
           | Inr nds1 \<Rightarrow> Inr ((a, nsd1) # nds1)))"

text \<open>The block of \<^verbatim>\<open>calculateNodeRewards\<close> under the first \<^verbatim>\<open>RulesetVersion >= 10\<close>: the
  node details with their bonuses, and the bonus scalar. Dividing by a total consensus bonus
  of zero panics.\<close>

definition bonusPhase ::
  "treeGenerator \<Rightarrow> (address \<times> NodeSmoothingDetails) list \<Rightarrow> int
     \<Rightarrow> error + ((address \<times> NodeSmoothingDetails) list \<times> int)" where
  "bonusPhase r nds totalEthForMinipools =
     (if 10 \<le> RulesetVersion r
      then
        (case calculateNodeBonuses (networkState r) nds of
           Inl e \<Rightarrow> Inl e
         | Inr (nds1, totalConsensusBonus) \<Rightarrow>
             (let remainingBalance = smoothingPoolBalance r - totalEthForMinipools
              in if remainingBalance < totalConsensusBonus
                 then (if totalConsensusBonus = 0 then Inl Panic
                       else (case scaleBonuses remainingBalance totalConsensusBonus nds1 of
                               Inl e \<Rightarrow> Inl e
                             | Inr nds2 \<Rightarrow>
                                 Inr (nds2, big_Div (remainingBalance * oneEth) totalConsensusBonus)))
                 else Inr (nds1, oneEth)))
      else Inr (nds, oneEth))"

definition sumSmoothingPoolEth :: "(address \<times> NodeSmoothingDetails) list \<Rightarrow> int" where
  "sumSmoothingPoolEth nds = sum_list (map (\<lambda>(a, nsd). nsd_SmoothingPoolEth nsd) nds)"

definition sumBonusEth :: "(address \<times> NodeSmoothingDetails) list \<Rightarrow> int" where
  "sumBonusEth nds = sum_list (map (\<lambda>(a, nsd). BonusEth nsd) nds)"

definition awardBonus :: "address \<times> NodeSmoothingDetails \<Rightarrow> address \<times> NodeSmoothingDetails" where
  "awardBonus = (\<lambda>(a, nsd). (a, nsd\<lparr>nsd_SmoothingPoolEth := nsd_SmoothingPoolEth nsd + BonusEth nsd\<rparr>))"

definition totalNodeOpShare :: "int \<Rightarrow> int \<Rightarrow> nat \<Rightarrow> int" where
  "totalNodeOpShare balance totalScore attestationCount =
     big_Div (big_Div (balance * totalScore) (int64 attestationCount)) oneEth"

text \<open>\<^verbatim>\<open>calculateNodeRewards\<close> returns the pool stakers' ETH, the node operators' ETH and the
  bonus scalar, and leaves the node details in the generator.\<close>

definition calculateNodeRewards :: "treeGenerator \<Rightarrow> error + (int \<times> int \<times> int \<times> treeGenerator)" where
  "calculateNodeRewards r =
     (let cheaters = getCheaters r;
          (minipools, totalScore, attestationCount) = GetScores (rollingRecord r) cheaters
      in if totalScore = 0 \<or> attestationCount = 0
         then Inr (smoothingPoolBalance r, 0, oneEth, r)
         else if int64 attestationCount = 0 then Inl Panic
         else
           (let nodeOpShare = totalNodeOpShare (smoothingPoolBalance r) totalScore attestationCount
            in case minipoolLoop (networkState r) cheaters nodeOpShare totalScore minipools [] of
                 Inl e \<Rightarrow> Inl e
               | Inr nds \<Rightarrow>
                   (let totalEthForMinipools = sumSmoothingPoolEth nds
                    in case bonusPhase r nds totalEthForMinipools of
                         Inl e \<Rightarrow> Inl e
                       | Inr (nds1, bonusScalar) \<Rightarrow>
                           (let delta = \<bar>totalEthForMinipools - nodeOpShare\<bar>
                            in if epsilon r < delta then Inl SmoothingPoolTotalError
                               else
                                 (let nds2 = (if 10 \<le> RulesetVersion r then map awardBonus nds1 else nds1);
                                      totalEth = (if 10 \<le> RulesetVersion r
                                                  then totalEthForMinipools + sumBonusEth nds1
                                                  else totalEthForMinipools);
                                      truePoolStakerAmount = smoothingPoolBalance r - totalEth
                                  in Inr (truePoolStakerAmount, totalEth, bonusScalar,
                                          r\<lparr>nodeDetails := nds2\<rparr>))))))"

subsection \<open>ETH rewards\<close>

text \<open>\<^verbatim>\<open>getBlocksAndTimesForInterval\<close>: the timestamp of the execution block at the start of the
  interval. The block numbers and times it copies into the two files are not modelled.\<close>

definition getBlocksAndTimesForInterval :: "clients \<Rightarrow> treeGenerator \<Rightarrow> error + nat" where
  "getBlocksAndTimesForInterval rp r =
     (case GetBeaconBlock rp (StartSlot (rollingRecord r)) of
        Inl e \<Rightarrow> Inl e
      | Inr None \<Rightarrow> Inl BeaconBlockMissing
      | Inr (Some elBlockNumber) \<Rightarrow> HeaderByNumber rp elBlockNumber)"

definition minipoolPerformance :: "MinipoolInfo \<Rightarrow> SmoothingPoolMinipoolPerformance" where
  "minipoolPerformance minipoolInfo =
     \<lparr>SuccessfulAttestations = AttestationCount minipoolInfo,
      MissedAttestations = length (MissingAttestationSlots minipoolInfo),
      perf_AttestationScore = AttestationScore minipoolInfo,
      EthEarned = MinipoolShare minipoolInfo,
      BonusEthEarned = MinipoolBonus minipoolInfo,
      perf_ConsensusIncome = ConsensusIncome minipoolInfo,
      EffectiveCommission = TotalFee minipoolInfo,
      perf_MissingAttestationSlots = MissingAttestationSlots minipoolInfo\<rparr>"

fun addPerformance ::
  "MinipoolInfo list \<Rightarrow> (address \<times> SmoothingPoolMinipoolPerformance) list
     \<Rightarrow> (address \<times> SmoothingPoolMinipoolPerformance) list" where
  "addPerformance [] perf = perf"
| "addPerformance (minipoolInfo # ms) perf =
     (if (AttestationCount minipoolInfo + length (MissingAttestationSlots minipoolInfo)) mod 2 ^ 64 = 0
      then addPerformance ms perf
      else addPerformance ms
             (AList.update (mp_Address minipoolInfo) (minipoolPerformance minipoolInfo) perf))"

definition addSmoothingPoolEth ::
  "clients \<Rightarrow> treeGenerator \<Rightarrow> address \<Rightarrow> NodeSmoothingDetails \<Rightarrow> error + treeGenerator" where
  "addSmoothingPoolEth rp r nodeAddress nodeInfo =
     (case getNodeReward rp r nodeAddress (Inr (RewardsNetwork nodeInfo)) of
        Inl e \<Rightarrow> Inl e
      | Inr (rewardsForNode, r1) \<Rightarrow>
          (let r2 = r1\<lparr>nodeRewards := AList.update nodeAddress
                      (rewardsForNode\<lparr>nr_SmoothingPoolEth :=
                         nr_SmoothingPoolEth rewardsForNode + nsd_SmoothingPoolEth nodeInfo\<rparr>)
                      (nodeRewards r1)\<rparr>;
               r3 = r2\<lparr>MinipoolPerformance := addPerformance (Minipools nodeInfo) (MinipoolPerformance r2)\<rparr>;
               network = nr_Network rewardsForNode;
               rewardsForNetwork = getNetworkReward r3 network
           in Inr (r3\<lparr>networkRewards := AList.update network
                      (rewardsForNetwork\<lparr>nw_SmoothingPoolEth :=
                         nw_SmoothingPoolEth rewardsForNetwork + nsd_SmoothingPoolEth nodeInfo\<rparr>)
                      (networkRewards r3)\<rparr>)))"

fun ethLoop ::
  "clients \<Rightarrow> (address \<times> NodeSmoothingDetails) list \<Rightarrow> treeGenerator \<Rightarrow> error + treeGenerator" where
  "ethLoop rp [] r = Inr r"
| "ethLoop rp ((nodeAddress, nodeInfo) # nds) r =
     (if 0 < nsd_SmoothingPoolEth nodeInfo
      then (case addSmoothingPoolEth rp r nodeAddress nodeInfo of
              Inl e \<Rightarrow> Inl e
            | Inr r1 \<Rightarrow> ethLoop rp nds r1)
      else ethLoop rp nds r)"

text \<open>The flag \<open>checkBeaconPerformance\<close> is a parameter of the source function that its body
  never reads.\<close>

definition calculateEthRewards :: "clients \<Rightarrow> treeGenerator \<Rightarrow> bool \<Rightarrow> error + treeGenerator" where
  "calculateEthRewards rp r checkBeaconPerformance =
     (let r0 = r\<lparr>smoothingPoolBalance := SmoothingPoolBalance (Details (networkState r))\<rparr>
      in if smoothingPoolBalance r0 = 0 then Inr r0
         else if Index r0 = 0 then Inr r0
         else
           (case getBlocksAndTimesForInterval rp r0 of
              Inl e \<Rightarrow> Inl e
            | Inr startTime \<Rightarrow>
                (let r1 = r0\<lparr>intervalSeconds :=
                            big_Quo (time_Sub (int64 (elSnapshotTime r0) * 1000000000)
                                              (int64 startTime * 1000000000)) 1000000000\<rparr>
                 in case calculateNodeRewards r1 of
                      Inl e \<Rightarrow> Inl e
                    | Inr (poolStakerETH, nodeOpEth, bonusScalar, r2) \<Rightarrow>
                        (let r3 = (if 10 \<le> RulesetVersion r2
                                   then r2\<lparr>BonusScalar := Some bonusScalar\<rparr> else r2)
                         in case ethLoop rp (nodeDetails r3) r3 of
                              Inl e \<Rightarrow> Inl e
                            | Inr r4 \<Rightarrow>
                                Inr (r4\<lparr>totals := (totals r4)
                                       \<lparr>PoolStakerSmoothingPoolEth := poolStakerETH,
                                        NodeOperatorSmoothingPoolEth := nodeOpEth,
                                        TotalSmoothingPoolEth := smoothingPoolBalance r4\<rparr>\<rparr>)))))"

subsection \<open>The tree\<close>

record 'h SSZFile =
  file_TotalRewards :: TotalRewards
  file_NodeRewards :: "(address \<times> NodeReward) list"
  file_NetworkRewards :: "(nat \<times> NetworkReward) list"
  MerkleRoot :: "'h option"

record 'h GenerateTreeResult =
  RewardsFile :: "'h SSZFile"
  InvalidNetworkNodes :: "address \<rightharpoonup> nat"
  res_BonusScalar :: "int option"
  res_MinipoolPerformance :: "(address \<times> SmoothingPoolMinipoolPerformance) list"

text \<open>Modelled from the spec: \<^verbatim>\<open>SSZFile_v1.GenerateMerkleTree\<close>, which is not in the sources at
  hand. The commitment builder "serializes the aggregate into a canonical, deterministically
  ordered structure and computes its Merkle root": the node rewards are put in the order of
  their identifiers, the network rewards in the order of their network ids, and the root is
  computed from the ordered leaf sequence by \<open>merkle\<close>, the fixed leaf encoding and hashing,
  which may fail.\<close>

definition GenerateMerkleTree ::
  "((address \<times> NodeReward) list \<Rightarrow> error + 'h) \<Rightarrow> 'h SSZFile \<Rightarrow> error + 'h SSZFile" where
  "GenerateMerkleTree merkle f =
     (let nodes = sort_key fst (file_NodeRewards f);
          networks = sort_key fst (file_NetworkRewards f)
      in case merkle nodes of
           Inl e \<Rightarrow> Inl e
         | Inr root \<Rightarrow>
             Inr (f\<lparr>file_NodeRewards := nodes, file_NetworkRewards := networks,
                     MerkleRoot := Some root\<rparr>))"

definition sortMissingAttestationSlots ::
  "address \<times> SmoothingPoolMinipoolPerformance \<Rightarrow> address \<times> SmoothingPoolMinipoolPerformance" where
  "sortMissingAttestationSlots =
     (\<lambda>(a, minipoolInfo).
        (a, minipoolInfo\<lparr>perf_MissingAttestationSlots := sort (perf_MissingAttestationSlots minipoolInfo)\<rparr>))"

text \<open>What \<^verbatim>\<open>generateTree\<close> and \<^verbatim>\<open>approximateStakerShareOfSmoothingPool\<close> set up before they
  calculate: the cache of valid networks and epsilon. The clients, which the source stores in
  the generator, are an argument of the functions that call them.\<close>

definition provision :: "treeGenerator \<Rightarrow> treeGenerator" where
  "provision r =
     r\<lparr>validNetworkCache := [0 \<mapsto> True],
       epsilon := (let nodeCount = int (length (NodeDetails (networkState r)));
                       minipoolCount = int (length (MinipoolDetails (networkState r)))
                   in if minipoolCount < nodeCount then nodeCount else minipoolCount)\<rparr>"

text \<open>\<^verbatim>\<open>generateTree\<close>. Ranging over a Go map visits the entries in an order the language
  leaves open; \<open>rangeNodes\<close> and \<open>rangeNetworks\<close> stand for the order in which the two
  materialising loops visit \<open>nodeRewards\<close> and \<open>networkRewards\<close>.\<close>

definition generateTree ::
  "clients \<Rightarrow> ((address \<times> NodeReward) list \<Rightarrow> error + 'h)
     \<Rightarrow> ((address \<times> NodeReward) list \<Rightarrow> (address \<times> NodeReward) list)
     \<Rightarrow> ((nat \<times> NetworkReward) list \<Rightarrow> (nat \<times> NetworkReward) list)
     \<Rightarrow> treeGenerator \<Rightarrow> error + 'h GenerateTreeResult" where
  "generateTree rp merkle rangeNodes rangeNetworks r =
     (case calculateRplRewards rp (provision r) of
        Inl e \<Rightarrow> Inl e
      | Inr r1 \<Rightarrow>
          (case calculateEthRewards rp r1 True of
             Inl e \<Rightarrow> Inl e
           | Inr r2 \<Rightarrow>
               (case GenerateMerkleTree merkle
                       \<lparr>file_TotalRewards = totals r2,
                        file_NodeRewards = rangeNodes (nodeRewards r2),
                        file_NetworkRewards = rangeNetworks (networkRewards r2),
                        MerkleRoot = None\<rparr> of
                  Inl e \<Rightarrow> Inl e
                | Inr file \<Rightarrow>
                    Inr \<lparr>RewardsFile = file,
                         InvalidNetworkNodes = invalidNetworkNodes r2,
                         res_BonusScalar = BonusScalar r2,
                         res_MinipoolPerformance =
                           map sortMissingAttestationSlots (MinipoolPerformance r2)\<rparr>)))"

definition approximateStakerShareOfSmoothingPool :: "clients \<Rightarrow> treeGenerator \<Rightarrow> error + int" where
  "approximateStakerShareOfSmoothingPool rp r =
     (case calculateEthRewards rp (provision r) False of
        Inl e \<Rightarrow> Inl e
      | Inr r1 \<Rightarrow> Inr (PoolStakerSmoothingPoolEth (totals r1)))"

subsection \<open>Quantities the properties speak of\<close>

text \<open>The fields that the allocation loops leave alone.\<close>

definition preserved :: "treeGenerator \<Rightarrow> treeGenerator \<Rightarrow> bool" where
  "preserved r r1 \<longleftrightarrow>
     networkState r1 = networkState r \<and> rollingRecord r1 = rollingRecord r
     \<and> RulesetVersion r1 = RulesetVersion r \<and> Index r1 = Index r
     \<and> elSnapshotTime r1 = elSnapshotTime r \<and> epsilon r1 = epsilon r
     \<and> totals r1 = totals r \<and> smoothingPoolBalance r1 = smoothingPoolBalance r
     \<and> nodeDetails r1 = nodeDetails r \<and> BonusScalar r1 = BonusScalar r"

text \<open>No key occurs twice in the two accumulators.\<close>

definition keysDistinct :: "treeGenerator \<Rightarrow> bool" where
  "keysDistinct r \<longleftrightarrow> distinct (map fst (nodeRewards r)) \<and> distinct (map fst (networkRewards r))"

text \<open>What the collateral loop credits to a node: its share when that is positive. What the
  oDAO loop credits to a member: its share.\<close>

definition creditedShare :: "(address \<rightharpoonup> int) \<Rightarrow> int \<Rightarrow> int \<Rightarrow> NativeNodeDetails \<Rightarrow> int" where
  "creditedShare nodeWeights totalNodeRewards totalNodeWeight nd =
     (case nodeWeights (NodeAddress nd) of
        None \<Rightarrow> 0
      | Some nodeWeight \<Rightarrow> max 0 (calculateNodeRplRewards totalNodeRewards nodeWeight totalNodeWeight))"

definition oDaoShare :: "(address \<rightharpoonup> int) \<Rightarrow> int \<Rightarrow> int \<Rightarrow> OracleDaoMemberDetails \<Rightarrow> int" where
  "oDaoShare trueODaoNodeTimes totalODaoRewards totalODaoNodeTime details =
     (case individualOdaoRewards trueODaoNodeTimes totalODaoRewards totalODaoNodeTime (Address details) of
        Inl e \<Rightarrow> 0 | Inr x \<Rightarrow> x)"

text \<open>The inputs of a run, the theoretical budgets of the two RPL splits, and the shares of the
  oDAO members.\<close>

definition sameInputs :: "treeGenerator \<Rightarrow> treeGenerator \<Rightarrow> bool" where
  "sameInputs r r1 \<longleftrightarrow>
     networkState r1 = networkState r \<and> rollingRecord r1 = rollingRecord r
     \<and> RulesetVersion r1 = RulesetVersion r \<and> Index r1 = Index r
     \<and> elSnapshotTime r1 = elSnapshotTime r \<and> epsilon r1 = epsilon r"

definition collateralBudget :: "NetworkState \<Rightarrow> int" where
  "collateralBudget st =
     big_Div (PendingRPLRewards (Details st) * NodeOperatorRewardsPercent (Details st)) oneEth"

definition oDaoBudget :: "NetworkState \<Rightarrow> int" where
  "oDaoBudget st =
     big_Div (PendingRPLRewards (Details st) * TrustedNodeOperatorRewardsPercent (Details st)) oneEth"

definition oDaoShares :: "treeGenerator \<Rightarrow> int list" where
  "oDaoShares r =
     (let members = OracleDaoMembers (networkState r);
          (trueODaoNodeTimes, totalODaoNodeTime) = oDaoNodeTimes r members (Map.empty, 0)
      in map (oDaoShare trueODaoNodeTimes (oDaoBudget (networkState r)) totalODaoNodeTime) members)"

text \<open>The minipools of all node details, the base share of a scored minipool, and what identifies
  a scored minipool with its share. \<open>nodeInvariant\<close> is what holds of a node entry before the
  bonuses: it is eligible exactly when it is no cheater, and it has no bonus yet.\<close>

definition allMinipools :: "(address \<times> NodeSmoothingDetails) list \<Rightarrow> MinipoolInfo list" where
  "allMinipools nds = concat (map (\<lambda>(a, nsd). Minipools nsd) nds)"

definition minipoolShare :: "int \<Rightarrow> int \<Rightarrow> MinipoolInfo \<Rightarrow> int" where
  "minipoolShare nodeOpShare totalScore minipool =
     big_Div (nodeOpShare * AttestationScore minipool) totalScore"

definition scored :: "MinipoolInfo \<Rightarrow> address \<times> int \<times> int" where
  "scored minipool = (mp_Address minipool, AttestationScore minipool, MinipoolShare minipool)"

definition nodeInvariant :: "address set \<Rightarrow> address \<times> NodeSmoothingDetails \<Rightarrow> bool" where
  "nodeInvariant cheaters = (\<lambda>(a, nsd). IsEligible nsd = (a \<notin> cheaters) \<and> BonusEth nsd = 0)"

text \<open>Relations between a node entry, or a minipool, before and after a step of the bonus
  calculation: \<open>mpStable\<close> and \<open>nodeStable\<close> list what the step leaves alone, \<open>bonusRel\<close> what
  \<^verbatim>\<open>calculateNodeBonuses\<close> does to a node, \<open>mpScaled\<close> and \<open>nodeScaled\<close> what the scaling does.\<close>

definition mpStable :: "MinipoolInfo \<Rightarrow> MinipoolInfo \<Rightarrow> bool" where
  "mpStable m m1 \<longleftrightarrow>
     mp_Address m1 = mp_Address m \<and> mp_NodeAddress m1 = mp_NodeAddress m
     \<and> AttestationScore m1 = AttestationScore m \<and> AttestationCount m1 = AttestationCount m
     \<and> MissingAttestationSlots m1 = MissingAttestationSlots m
     \<and> MinipoolShare m1 = MinipoolShare m \<and> NodeOperatorBond m1 = NodeOperatorBond m"

definition nodeStable :: "address \<times> NodeSmoothingDetails \<Rightarrow> address \<times> NodeSmoothingDetails \<Rightarrow> bool" where
  "nodeStable = (\<lambda>(a, n) (a1, n1).
     a1 = a \<and> nsd_Address n1 = nsd_Address n \<and> IsEligible n1 = IsEligible n
     \<and> nsd_SmoothingPoolEth n1 = nsd_SmoothingPoolEth n \<and> RewardsNetwork n1 = RewardsNetwork n
     \<and> list_all2 mpStable (Minipools n) (Minipools n1))"

definition bonusOf :: "MinipoolInfo \<Rightarrow> int" where
  "bonusOf m = (case MinipoolBonus m of None \<Rightarrow> 0 | Some b \<Rightarrow> b)"

definition bonusRel :: "NetworkState \<Rightarrow> address \<times> NodeSmoothingDetails \<Rightarrow> address \<times> NodeSmoothingDetails \<Rightarrow> bool" where
  "bonusRel st = (\<lambda>(a, n) (a1, n1).
     nodeStable (a, n) (a1, n1)
     \<and> (if IsEligible n
         then BonusEth n1 = BonusEth n + sum_list (map bonusOf (Minipools n1))
              \<and> 0 \<le> sum_list (map bonusOf (Minipools n1))
              \<and> (\<exists>nd. NodeDetailsByAddress st (nsd_Address n) = Some nd
                    \<and> (\<forall>m \<in> set (Minipools n1). MinipoolBonus m \<noteq> None \<longrightarrow>
                          TotalFee m = feeWithBonus (PercentOfBorrowedEth st nd)
                          \<and> TotalFee m \<le> fourteenPercentEth))
         else n1 = n))"

definition mpScaled :: "int \<Rightarrow> int \<Rightarrow> MinipoolInfo \<Rightarrow> MinipoolInfo \<Rightarrow> bool" where
  "mpScaled remainingBalance totalConsensusBonus m m2 \<longleftrightarrow>
     (\<exists>b. MinipoolBonus m = Some b
          \<and> MinipoolBonus m2 = Some (big_Div (b * remainingBalance) totalConsensusBonus))
     \<and> TotalFee m2 = TotalFee m"

definition nodeScaled :: "int \<Rightarrow> int \<Rightarrow> address \<times> NodeSmoothingDetails \<Rightarrow> address \<times> NodeSmoothingDetails \<Rightarrow> bool" where
  "nodeScaled remainingBalance totalConsensusBonus = (\<lambda>(a, n) (a2, n2).
     a2 = a
     \<and> BonusEth n2 = big_Div (BonusEth n * remainingBalance) totalConsensusBonus
     \<and> list_all2 (mpScaled remainingBalance totalConsensusBonus) (Minipools n) (Minipools n2))"

text \<open>What the bonus calculation keeps of a node entry that matters for a cheater.\<close>

definition cheaterEntry :: "address \<times> NodeSmoothingDetails \<Rightarrow> address \<times> NodeSmoothingDetails \<Rightarrow> bool" where
  "cheaterEntry = (\<lambda>(a, n) (a1, n1).
     a1 = a \<and> IsEligible n1 = IsEligible n
     \<and> (\<not> IsEligible n \<and> BonusEth n = 0 \<longrightarrow> BonusEth n1 = 0))"

subsection \<open>Example snapshots\<close>

text \<open>Two nodes on network 0. Node 1 owns minipool 11; node 2 owns minipool 21, which has three
  penalties. Node 1 is the only oDAO member. The examples vary the pending RPL, the node
  weights, the smoothing pool balance, the oDAO percentage and the consensus income.\<close>

definition exNode1 :: NativeNodeDetails where
  "exNode1 = \<lparr>NodeAddress = 1, RewardNetwork = 0\<rparr>"

definition exNode2 :: NativeNodeDetails where
  "exNode2 = \<lparr>NodeAddress = 2, RewardNetwork = 0\<rparr>"

definition exMinipool11 :: NativeMinipoolDetails where
  "exMinipool11 = \<lparr>MinipoolAddress = 11, NodeFee = 50000000000000000,
                     NodeDepositBalance = 8000000000000000000, PenaltyCount = 0\<rparr>"

definition exMinipool21 :: NativeMinipoolDetails where
  "exMinipool21 = \<lparr>MinipoolAddress = 21, NodeFee = 50000000000000000,
                     NodeDepositBalance = 8000000000000000000, PenaltyCount = 3\<rparr>"

definition exState :: "int \<Rightarrow> (address \<rightharpoonup> int) \<times> int \<Rightarrow> int \<Rightarrow> int \<Rightarrow> NetworkState" where
  "exState pending weights balance oDaoPercent =
     \<lparr>NodeDetails = [exNode1, exNode2],
      NodeDetailsByAddress = [1 \<mapsto> exNode1, 2 \<mapsto> exNode2],
      MinipoolDetails = [exMinipool11, exMinipool21],
      MinipoolDetailsByNode = (\<lambda>a. if a = 1 then [exMinipool11] else if a = 2 then [exMinipool21] else []),
      MinipoolDetailsByAddress = [11 \<mapsto> exMinipool11, 21 \<mapsto> exMinipool21],
      OracleDaoMembers = [\<lparr>Address = 1, JoinedTime = 0\<rparr>],
      Details = \<lparr>PendingRPLRewards = pending,
                 ProtocolDaoRewardsPercent = 100000000000000000,
                 NodeOperatorRewardsPercent = 700000000000000000,
                 TrustedNodeOperatorRewardsPercent = oDaoPercent,
                 SmoothingPoolBalance = balance,
                 IntervalDuration = 2419200000000000\<rparr>,
      CalculateNodeWeights = Inr weights,
      PercentOfBorrowedEth = (\<lambda>nd. 5000000000000000000),
      Seconds = (\<lambda>d. d div 1000000000)\<rparr>"

definition exMinipoolInfo :: "address \<Rightarrow> address \<Rightarrow> int \<Rightarrow> MinipoolInfo" where
  "exMinipoolInfo a node income =
     \<lparr>mp_Address = a, mp_NodeAddress = node, AttestationScore = 10000000000000000000,
      AttestationCount = 100, MissingAttestationSlots = [7, 3], IsEligibleForBonuses = True,
      NodeOperatorBond = 0, MinipoolShare = 0, MinipoolBonus = None,
      ConsensusIncome = Some income, TotalFee = 0\<rparr>"

text \<open>A rolling record whose scores leave out the minipools of the cheaters it is given.\<close>

definition exRecord :: "int \<Rightarrow> RollingRecord" where
  "exRecord income =
     \<lparr>StartSlot = 100,
      GetScores = (\<lambda>cheaters.
        (let ms = filter (\<lambda>m. mp_NodeAddress m \<notin> cheaters)
                    [exMinipoolInfo 11 1 income, exMinipoolInfo 21 2 income]
         in (ms, sum_list (map AttestationScore ms), sum_list (map AttestationCount ms))))\<rparr>"

definition exClients :: clients where
  "exClients = \<lparr>GetNetworkEnabled = (\<lambda>n. Inr (n < 2)),
                  GetBeaconBlock = (\<lambda>slot. Inr (Some slot)),
                  HeaderByNumber = (\<lambda>n. Inr 1000)\<rparr>"

definition exMerkle :: "(address \<times> NodeReward) list \<Rightarrow> error + (address \<times> NodeReward) list" where
  "exMerkle leaves = Inr leaves"

definition exGenerator :: "NetworkState \<Rightarrow> RollingRecord \<Rightarrow> treeGenerator" where
  "exGenerator st record = newTreeGenerator 10 5 3000000 st record"

lemmas ex_defs = exNode1_def exNode2_def exMinipool11_def exMinipool21_def exState_def
  exMinipoolInfo_def exRecord_def exClients_def exMerkle_def exGenerator_def newTreeGenerator_def

definition exNodeSmoothingDetails :: "int \<Rightarrow> (address \<times> NodeSmoothingDetails) list" where
  "exNodeSmoothingDetails income =
     [(1, \<lparr>nsd_Address = 1, IsEligible = True,
            Minipools = [(exMinipoolInfo 11 1 income)
                           \<lparr>NodeOperatorBond := 8000000000000000000, MinipoolShare := 100000\<rparr>],
            nsd_SmoothingPoolEth = 100000, BonusEth = 0, RewardsNetwork = 0\<rparr>)]"

lemmas bonus_defs = minipoolBonus_def feeWithBonus_def nodeBonuses_def big_Div_def
  oneEth_def tenEth_def pointOhFourEth_def pointOneEth_def fourteenPercentEth_def thirtyTwoEth_def

definition exBase :: treeGenerator where
  "exBase = provision (exGenerator (exState 1000 ([1 \<mapsto> 3, 2 \<mapsto> 1], 4) 1000000 200000000000000000)
                                   (exRecord 1000000))"

definition exEth :: "treeGenerator \<Rightarrow> treeGenerator" where
  "exEth r = (case calculateEthRewards exClients r True of Inr r2 \<Rightarrow> r2 | Inl e \<Rightarrow> r)"

lemmas eth_defs = calculateEthRewards_def getBlocksAndTimesForInterval_def calculateNodeRewards_def
  getCheaters_def isCheater_def totalNodeOpShare_def newNodeSmoothingDetails_def
  bonusPhase_def sumSmoothingPoolEth_def sumBonusEth_def awardBonus_def
  scaleMinipoolBonus_def scaleNodeBonus_def addSmoothingPoolEth_def minipoolPerformance_def
  getNodeReward_def getNetworkReward_def validateNetwork_def NewNodeReward_def NewNetworkReward_def
  int64_def time_Sub_def big_Quo_def provision_def

definition exScarce :: treeGenerator where
  "exScarce = provision (exGenerator (exState 1000 ([1 \<mapsto> 3, 2 \<mapsto> 1], 4) 1000000 200000000000000000)
                                     (exRecord 100000000))"

definition exBonused :: "(address \<times> NodeSmoothingDetails) list" where
  "exBonused =
     [(1, \<lparr>nsd_Address = 1, IsEligible = True,
            Minipools = [(exMinipoolInfo 11 1 100000000)
                           \<lparr>NodeOperatorBond := 8000000000000000000, MinipoolShare := 100000,
                            TotalFee := 120000000000000000, MinipoolBonus := Some 5250000\<rparr>],
            nsd_SmoothingPoolEth = 100000, BonusEth = 5250000, RewardsNetwork = 0\<rparr>)]"

definition exSnapshot :: NetworkState where
  "exSnapshot = exState 1000 ([1 \<mapsto> 3, 2 \<mapsto> 1], 4) 1000000 200000000000000000"

definition exRpl :: "treeGenerator \<Rightarrow> treeGenerator" where
  "exRpl r = (case calculateRplRewards exClients r of Inr r1 \<Rightarrow> r1 | Inl e \<Rightarrow> r)"

definition exTree :: "treeGenerator \<Rightarrow> (address \<times> NodeReward) list GenerateTreeResult" where
  "exTree r2 =
     \<lparr>RewardsFile =
        \<lparr>file_TotalRewards = totals r2,
         file_NodeRewards = sort_key fst (nodeRewards r2),
         file_NetworkRewards = sort_key fst (networkRewards r2),
         MerkleRoot = Some (sort_key fst (nodeRewards r2))\<rparr>,
      InvalidNetworkNodes = invalidNetworkNodes r2,
      res_BonusScalar = BonusScalar r2,
      res_MinipoolPerformance = map sortMissingAttestationSlots (MinipoolPerformance r2)\<rparr>"

lemmas rpl_defs = calculateRplRewards_def collateralRewards_def oDaoRewards_def addCollateralRpl_def
  addOracleDaoRpl_def getNodeReward_def getNetworkReward_def validateNetwork_def individualOdaoRewards_def
  participationTime_def time_Sub_def int64_def calculateNodeRplRewards_def big_Div_def big_Quo_def
  sumCollateralRpl_def sumOracleDaoRpl_def NewNodeReward_def NewNetworkReward_def provision_def oneEth_def

definition exUnfiltered :: RollingRecord where
  "exUnfiltered =
     \<lparr>StartSlot = 100,
      GetScores = (\<lambda>cheaters. ([exMinipoolInfo 11 1 1000000, exMinipoolInfo 21 2 1000000],
                                  20000000000000000000, 200))\<rparr>"

definition exCheating :: treeGenerator where
  "exCheating = (provision (newTreeGenerator 10 5 3000000 exSnapshot exUnfiltered))
                  \<lparr>smoothingPoolBalance := 1000000\<rparr>"

definition exScoredCheater :: NodeSmoothingDetails where
  "exScoredCheater =
     \<lparr>nsd_Address = 2, IsEligible = False,
      Minipools = [(exMinipoolInfo 21 2 1000000)
                     \<lparr>NodeOperatorBond := 8000000000000000000, MinipoolShare := 50000\<rparr>],
      nsd_SmoothingPoolEth = 50000, BonusEth = 0, RewardsNetwork = 0\<rparr>"

definition exScored :: treeGenerator where
  "exScored = exCheating
     \<lparr>nodeDetails :=
        [(1, \<lparr>nsd_Address = 1, IsEligible = True,
               Minipools = [(exMinipoolInfo 11 1 1000000)
                              \<lparr>NodeOperatorBond := 8000000000000000000, MinipoolShare := 50000,
                               TotalFee := 120000000000000000, MinipoolBonus := Some 52500\<rparr>],
               nsd_SmoothingPoolEth = 102500, BonusEth = 52500, RewardsNetwork = 0\<rparr>),
         (2, exScoredCheater)]\<rparr>"

definition exMinipool12 :: NativeMinipoolDetails where
  "exMinipool12 = \<lparr>MinipoolAddress = 12, NodeFee = 140000000000000000,
                     NodeDepositBalance = 8000000000000000000, PenaltyCount = 0\<rparr>"

definition exTwoMinipools :: NetworkState where
  "exTwoMinipools = exSnapshot
     \<lparr>MinipoolDetails := [exMinipool11, exMinipool12, exMinipool21],
      MinipoolDetailsByNode :=
        (\<lambda>a. if a = 1 then [exMinipool11, exMinipool12] else if a = 2 then [exMinipool21] else []),
      MinipoolDetailsByAddress := [11 \<mapsto> exMinipool11, 12 \<mapsto> exMinipool12, 21 \<mapsto> exMinipool21]\<rparr>"

definition exTwoScores :: RollingRecord where
  "exTwoScores =
     \<lparr>StartSlot = 100,
      GetScores = (\<lambda>cheaters. ([exMinipoolInfo 11 1 100000000, exMinipoolInfo 12 1 100000000],
                                  20000000000000000000, 200))\<rparr>"

definition exMixed :: treeGenerator where
  "exMixed = newTreeGenerator 10 5 3000000 exTwoMinipools exTwoScores"

lemmas mixed_defs = exMixed_def exTwoScores_def exTwoMinipools_def exMinipool12_def exSnapshot_def

section \<open>Properties\<close>

lemma provision_fields [simp]:
  "networkState (provision r) = networkState r"
  "rollingRecord (provision r) = rollingRecord r"
  "RulesetVersion (provision r) = RulesetVersion r"
  "Index (provision r) = Index r"
  "elSnapshotTime (provision r) = elSnapshotTime r"
  "totals (provision r) = totals r"
  "nodeRewards (provision r) = nodeRewards r"
  "networkRewards (provision r) = networkRewards r"
  by (simp_all add: provision_def)

subsection \<open>The accumulators\<close>

lemma preserved_refl [simp]: "preserved r r"
  by (simp add: preserved_def)

lemma preserved_trans: "preserved r r1 \<Longrightarrow> preserved r1 r2 \<Longrightarrow> preserved r r2"
  by (simp add: preserved_def)

lemma sum_list_update:
  "sum_list (map (\<lambda>(k, w). f w) (AList.update k v al))
     = sum_list (map (\<lambda>(k, w). f w) al) + f v - (case map_of al k of None \<Rightarrow> 0 | Some w \<Rightarrow> f w)"
  for f :: "'b \<Rightarrow> int"
  by (induction al) auto

lemma validateNetwork_preserved:
  "validateNetwork rp r n = Inr (b, r1) \<Longrightarrow>
     preserved r r1 \<and> nodeRewards r1 = nodeRewards r \<and> networkRewards r1 = networkRewards r
     \<and> MinipoolPerformance r1 = MinipoolPerformance r"
  by (auto simp: validateNetwork_def preserved_def split: option.splits sum.splits)

lemma getNodeReward_preserved:
  assumes "getNodeReward rp r a n = Inr (x, r1)"
  shows "preserved r r1" and "networkRewards r1 = networkRewards r"
    and "MinipoolPerformance r1 = MinipoolPerformance r"
    and "map_of (nodeRewards r1) a = Some x"
    and "nodeRewards r1 = nodeRewards r \<or>
         (map_of (nodeRewards r) a = None \<and> x = NewNodeReward (nr_Network x)
          \<and> nodeRewards r1 = AList.update a x (nodeRewards r))"
  using assms
  by (auto simp: getNodeReward_def Let_def preserved_def update_conv' NewNodeReward_def
      dest!: validateNetwork_preserved split: option.splits sum.splits if_splits)

lemma getNodeReward_distinct:
  "getNodeReward rp r a n = Inr (x, r1) \<Longrightarrow> keysDistinct r \<Longrightarrow> keysDistinct r1"
  by (auto simp: keysDistinct_def distinct_update dest: getNodeReward_preserved(2,5))

lemma sumCollateralRpl_update:
  "sumCollateralRpl (r\<lparr>networkRewards := AList.update k v (networkRewards r)\<rparr>)
     = sumCollateralRpl r + nw_CollateralRpl v
       - (case map_of (networkRewards r) k of None \<Rightarrow> 0 | Some w \<Rightarrow> nw_CollateralRpl w)"
  by (simp add: sumCollateralRpl_def sum_list_update)

lemma sumOracleDaoRpl_update:
  "sumOracleDaoRpl (r\<lparr>networkRewards := AList.update k v (networkRewards r)\<rparr>)
     = sumOracleDaoRpl r + nw_OracleDaoRpl v
       - (case map_of (networkRewards r) k of None \<Rightarrow> 0 | Some w \<Rightarrow> nw_OracleDaoRpl w)"
  by (simp add: sumOracleDaoRpl_def sum_list_update)

lemma sums_networkRewards_cong:
  "networkRewards r1 = networkRewards r \<Longrightarrow> sumCollateralRpl r1 = sumCollateralRpl r"
  "networkRewards r1 = networkRewards r \<Longrightarrow> sumOracleDaoRpl r1 = sumOracleDaoRpl r"
  by (simp_all add: sumCollateralRpl_def sumOracleDaoRpl_def)

lemma addCollateralRpl_effect:
  assumes "addCollateralRpl rp r nd x = Inr r1"
  shows "preserved r r1"
    and "sumCollateralRpl r1 = sumCollateralRpl r + x"
    and "sumOracleDaoRpl r1 = sumOracleDaoRpl r"
    and "keysDistinct r \<Longrightarrow> keysDistinct r1"
proof -
  from assms obtain y r0 where g: "getNodeReward rp r (NodeAddress nd) (Inr (RewardNetwork nd)) = Inr (y, r0)"
    by (auto simp: addCollateralRpl_def split: sum.splits)
  let ?r2 = "r0\<lparr>nodeRewards := AList.update (NodeAddress nd)
                 (y\<lparr>nr_CollateralRpl := nr_CollateralRpl y + x\<rparr>) (nodeRewards r0)\<rparr>"
  let ?w = "getNetworkReward ?r2 (nr_Network y)"
  have r1: "r1 = ?r2\<lparr>networkRewards := AList.update (nr_Network y)
                 (?w\<lparr>nw_CollateralRpl := nw_CollateralRpl ?w + x\<rparr>) (networkRewards ?r2)\<rparr>"
    using assms g by (simp add: addCollateralRpl_def Let_def)
  note p = getNodeReward_preserved[OF g]
  show "preserved r r1" using p(1) by (simp add: r1 preserved_def)
  have c: "sumCollateralRpl ?r2 = sumCollateralRpl r" "sumOracleDaoRpl ?r2 = sumOracleDaoRpl r"
    using p(2) by (simp_all add: sumCollateralRpl_def sumOracleDaoRpl_def)
  show "sumCollateralRpl r1 = sumCollateralRpl r + x"
    unfolding r1 sumCollateralRpl_update c
    by (simp add: getNetworkReward_def NewNetworkReward_def split: option.splits)
  show "sumOracleDaoRpl r1 = sumOracleDaoRpl r"
    unfolding r1 sumOracleDaoRpl_update c
    by (simp add: getNetworkReward_def NewNetworkReward_def split: option.splits)
  show "keysDistinct r1" if "keysDistinct r"
    using getNodeReward_distinct[OF g that]
    by (simp add: r1 keysDistinct_def distinct_update)
qed

lemma addOracleDaoRpl_effect:
  assumes "addOracleDaoRpl rp r a x = Inr r1"
  shows "preserved r r1"
    and "sumOracleDaoRpl r1 = sumOracleDaoRpl r + x"
    and "sumCollateralRpl r1 = sumCollateralRpl r"
    and "keysDistinct r \<Longrightarrow> keysDistinct r1"
proof -
  define n where "n = (case NodeDetailsByAddress (networkState r) a of
                         None \<Rightarrow> Inl Panic | Some nd \<Rightarrow> Inr (RewardNetwork nd))"
  from assms obtain y r0 where g: "getNodeReward rp r a n = Inr (y, r0)"
    by (auto simp: addOracleDaoRpl_def n_def split: sum.splits)
  let ?r2 = "r0\<lparr>nodeRewards := AList.update a
                 (y\<lparr>nr_OracleDaoRpl := nr_OracleDaoRpl y + x\<rparr>) (nodeRewards r0)\<rparr>"
  let ?w = "getNetworkReward ?r2 (nr_Network y)"
  have r1: "r1 = ?r2\<lparr>networkRewards := AList.update (nr_Network y)
                 (?w\<lparr>nw_OracleDaoRpl := nw_OracleDaoRpl ?w + x\<rparr>) (networkRewards ?r2)\<rparr>"
    using assms g by (simp add: addOracleDaoRpl_def Let_def n_def)
  note p = getNodeReward_preserved[OF g]
  show "preserved r r1" using p(1) by (simp add: r1 preserved_def)
  have c: "sumCollateralRpl ?r2 = sumCollateralRpl r" "sumOracleDaoRpl ?r2 = sumOracleDaoRpl r"
    using p(2) by (simp_all add: sumCollateralRpl_def sumOracleDaoRpl_def)
  show "sumOracleDaoRpl r1 = sumOracleDaoRpl r + x"
    unfolding r1 sumOracleDaoRpl_update c
    by (simp add: getNetworkReward_def NewNetworkReward_def split: option.splits)
  show "sumCollateralRpl r1 = sumCollateralRpl r"
    unfolding r1 sumCollateralRpl_update c
    by (simp add: getNetworkReward_def NewNetworkReward_def split: option.splits)
  show "keysDistinct r1" if "keysDistinct r"
    using getNodeReward_distinct[OF g that]
    by (simp add: r1 keysDistinct_def distinct_update)
qed

lemma collateralLoop_effect:
  assumes "collateralLoop rp ws budget tw nds r = Inr r1"
  shows "preserved r r1 \<and> sumCollateralRpl r1 = sumCollateralRpl r + sum_list (map (creditedShare ws budget tw) nds)
         \<and> sumOracleDaoRpl r1 = sumOracleDaoRpl r \<and> (keysDistinct r \<longrightarrow> keysDistinct r1)"
  using assms
proof (induction nds arbitrary: r)
  case Nil
  then show ?case by simp
next
  case (Cons nd nds)
  from Cons.prems obtain w where w: "ws (NodeAddress nd) = Some w"
    by (auto split: option.splits)
  let ?x = "calculateNodeRplRewards budget w tw"
  show ?case
  proof (cases "0 < ?x")
    case True
    with Cons.prems w obtain r0 where a: "addCollateralRpl rp r nd ?x = Inr r0"
      and l: "collateralLoop rp ws budget tw nds r0 = Inr r1"
      by (auto simp: Let_def split: sum.splits)
    from Cons.IH[OF l] addCollateralRpl_effect[OF a] True w show ?thesis
      by (auto simp: creditedShare_def intro: preserved_trans)
  next
    case False
    with Cons.prems w have l: "collateralLoop rp ws budget tw nds r = Inr r1"
      by (simp add: Let_def)
    from Cons.IH[OF l] False w show ?thesis
      by (auto simp: creditedShare_def)
  qed
qed

lemma oDaoLoop_effect:
  assumes "oDaoLoop rp ts budget tt ds r = Inr r1"
  shows "preserved r r1 \<and> sumOracleDaoRpl r1 = sumOracleDaoRpl r + sum_list (map (oDaoShare ts budget tt) ds)
         \<and> sumCollateralRpl r1 = sumCollateralRpl r \<and> (keysDistinct r \<longrightarrow> keysDistinct r1)"
  using assms
proof (induction ds arbitrary: r)
  case Nil
  then show ?case by simp
next
  case (Cons d ds)
  from Cons.prems obtain x r0 where x: "individualOdaoRewards ts budget tt (Address d) = Inr x"
    and a: "addOracleDaoRpl rp r (Address d) x = Inr r0"
    and l: "oDaoLoop rp ts budget tt ds r0 = Inr r1"
    by (auto split: sum.splits)
  from Cons.IH[OF l] addOracleDaoRpl_effect[OF a] x show ?case
    by (auto simp: oDaoShare_def intro: preserved_trans)
qed

subsection \<open>Zero pending rewards fail, an empty smoothing pool is skipped\<close>

text \<open>
  C8. When the pending RPL rewards of the interval are exactly zero, \<open>generateTree\<close> fails
  with an error and returns no result. When the smoothing pool balance is zero, or the interval
  index is zero, \<open>calculateEthRewards\<close> returns without an error and leaves the generator as
  it was, apart from the copy of the balance it keeps in \<open>smoothingPoolBalance\<close>: no reward,
  total or performance entry is touched.
\<close>

theorem zero_pending_fails_and_empty_pool_is_skipped:
  "(PendingRPLRewards (Details (networkState r)) = 0
      \<longrightarrow> generateTree rp merkle rangeNodes rangeNetworks r = Inl NoPendingRewards)
   \<and> (SmoothingPoolBalance (Details (networkState r)) = 0 \<or> Index r = 0
      \<longrightarrow> calculateEthRewards rp r checkBeaconPerformance
            = Inr (r\<lparr>smoothingPoolBalance := SmoothingPoolBalance (Details (networkState r))\<rparr>))"
  by (simp add: generateTree_def calculateRplRewards_def collateralRewards_def
      calculateEthRewards_def Let_def)

theorem zero_pending_fails_and_empty_pool_is_skipped_witness:
  "PendingRPLRewards (Details (networkState
       (exGenerator (exState 0 ([1 \<mapsto> 3, 2 \<mapsto> 1], 4) 0 200000000000000000) (exRecord 1000000)))) = 0
   \<and> SmoothingPoolBalance (Details (networkState
       (exGenerator (exState 0 ([1 \<mapsto> 3, 2 \<mapsto> 1], 4) 0 200000000000000000) (exRecord 1000000)))) = 0
   \<and> generateTree exClients exMerkle id id
       (exGenerator (exState 0 ([1 \<mapsto> 3, 2 \<mapsto> 1], 4) 0 200000000000000000) (exRecord 1000000))
       = Inl NoPendingRewards
   \<and> calculateEthRewards exClients
       (exGenerator (exState 0 ([1 \<mapsto> 3, 2 \<mapsto> 1], 4) 0 200000000000000000) (exRecord 1000000)) True
       = Inr ((exGenerator (exState 0 ([1 \<mapsto> 3, 2 \<mapsto> 1], 4) 0 200000000000000000) (exRecord 1000000))
               \<lparr>smoothingPoolBalance := 0\<rparr>)"
  using zero_pending_fails_and_empty_pool_is_skipped
    [of "exGenerator (exState 0 ([1 \<mapsto> 3, 2 \<mapsto> 1], 4) 0 200000000000000000) (exRecord 1000000)"
        exClients exMerkle id id True]
  by (simp add: exGenerator_def exState_def newTreeGenerator_def)

subsection \<open>The RPL phase\<close>

lemma preserved_sameInputs: "preserved r r1 \<Longrightarrow> sameInputs r r1"
  by (simp add: preserved_def sameInputs_def)

lemma sameInputs_refl [simp]: "sameInputs r r"
  by (simp add: sameInputs_def)

lemma sameInputs_trans: "sameInputs r r1 \<Longrightarrow> sameInputs r1 r2 \<Longrightarrow> sameInputs r r2"
  by (simp add: sameInputs_def)

lemma collateralRewards_positive:
  assumes "collateralRewards rp r = Inr (r1, p)"
    and "CalculateNodeWeights (networkState r) = Inr (ws, tw)" and "0 < tw"
  shows "sameInputs r r1"
    and "TotalCollateralRpl (totals r1)
           = sumCollateralRpl r + sum_list (map (creditedShare ws (collateralBudget (networkState r)) tw)
                                               (NodeDetails (networkState r)))"
    and "\<bar>collateralBudget (networkState r) - TotalCollateralRpl (totals r1)\<bar> \<le> epsilon r"
    and "p = PendingRPLRewards (Details (networkState r)) - TotalCollateralRpl (totals r1)"
    and "sumOracleDaoRpl r1 = sumOracleDaoRpl r"
    and "keysDistinct r \<Longrightarrow> keysDistinct r1"
    and "PoolStakerSmoothingPoolEth (totals r1) = PoolStakerSmoothingPoolEth (totals r)"
proof -
  let ?st = "networkState r"
  let ?r0 = "r\<lparr>totals := (totals r)\<lparr>TotalNodeWeight := tw\<rparr>\<rparr>"
  from assms obtain r2 where
    l: "collateralLoop rp ws (collateralBudget ?st) tw (NodeDetails ?st) ?r0 = Inr r2"
    and d: "\<not> epsilon r2 < \<bar>collateralBudget ?st - sumCollateralRpl r2\<bar>"
    and r1: "r1 = r2\<lparr>totals := (totals r2)\<lparr>TotalCollateralRpl := sumCollateralRpl r2\<rparr>\<rparr>"
    and p: "p = PendingRPLRewards (Details ?st) - sumCollateralRpl r2"
    by (auto simp: collateralRewards_def collateralBudget_def Let_def split: if_splits sum.splits)
  note e = collateralLoop_effect[OF l]
  have s0: "sumCollateralRpl ?r0 = sumCollateralRpl r" "sumOracleDaoRpl ?r0 = sumOracleDaoRpl r"
    "keysDistinct ?r0 = keysDistinct r"
    by (simp_all add: sumCollateralRpl_def sumOracleDaoRpl_def keysDistinct_def)
  from e show "sameInputs r r1" by (simp add: r1 preserved_def sameInputs_def)
  from e show "TotalCollateralRpl (totals r1)
           = sumCollateralRpl r + sum_list (map (creditedShare ws (collateralBudget ?st) tw) (NodeDetails ?st))"
    by (simp add: r1 s0)
  from e d show "\<bar>collateralBudget ?st - TotalCollateralRpl (totals r1)\<bar> \<le> epsilon r"
    by (simp add: r1 preserved_def)
  from p show "p = PendingRPLRewards (Details ?st) - TotalCollateralRpl (totals r1)"
    by (simp add: r1)
  from e show "sumOracleDaoRpl r1 = sumOracleDaoRpl r"
    by (simp add: r1 s0 sumOracleDaoRpl_def)
  from e show "keysDistinct r1" if "keysDistinct r"
    using that by (simp add: r1 s0 keysDistinct_def)
  from e show "PoolStakerSmoothingPoolEth (totals r1) = PoolStakerSmoothingPoolEth (totals r)"
    by (simp add: r1 preserved_def)
qed

lemma collateralRewards_zero:
  assumes "collateralRewards rp r = Inr (r1, p)"
    and "CalculateNodeWeights (networkState r) = Inr (ws, tw)" and "\<not> 0 < tw"
  shows "r1 = r"
  using assms by (auto simp: collateralRewards_def Let_def split: if_splits)

lemma collateralRewards_weights:
  assumes "collateralRewards rp r = Inr (r1, p)"
  obtains ws tw where "CalculateNodeWeights (networkState r) = Inr (ws, tw)"
  using assms by (auto simp: collateralRewards_def Let_def split: if_splits sum.splits)

lemma collateralRewards_frame:
  assumes "collateralRewards rp r = Inr (r1, p)"
  shows "sameInputs r r1" and "sumOracleDaoRpl r1 = sumOracleDaoRpl r"
    and "keysDistinct r \<Longrightarrow> keysDistinct r1"
    and "PoolStakerSmoothingPoolEth (totals r1) = PoolStakerSmoothingPoolEth (totals r)"
proof -
  from assms obtain ws tw where w: "CalculateNodeWeights (networkState r) = Inr (ws, tw)"
    by (rule collateralRewards_weights)
  show "sameInputs r r1"
    using collateralRewards_positive(1)[OF assms w] collateralRewards_zero[OF assms w]
    by (cases "0 < tw") auto
  show "sumOracleDaoRpl r1 = sumOracleDaoRpl r"
    using collateralRewards_positive(5)[OF assms w] collateralRewards_zero[OF assms w]
    by (cases "0 < tw") auto
  show "keysDistinct r1" if "keysDistinct r"
    using that collateralRewards_positive(6)[OF assms w] collateralRewards_zero[OF assms w]
    by (cases "0 < tw") auto
  show "PoolStakerSmoothingPoolEth (totals r1) = PoolStakerSmoothingPoolEth (totals r)"
    using collateralRewards_positive(7)[OF assms w] collateralRewards_zero[OF assms w]
    by (cases "0 < tw") auto
qed

lemma oDaoRewards_effect:
  assumes "oDaoRewards rp r p = Inr r1"
  shows "sameInputs r r1"
    and "TotalOracleDaoRpl (totals r1) = sumOracleDaoRpl r + sum_list (oDaoShares r)"
    and "\<bar>oDaoBudget (networkState r) - TotalOracleDaoRpl (totals r1)\<bar> \<le> epsilon r"
    and "ProtocolDaoRpl (totals r1) = p - TotalOracleDaoRpl (totals r1)"
    and "TotalCollateralRpl (totals r1) = TotalCollateralRpl (totals r)"
    and "keysDistinct r \<Longrightarrow> keysDistinct r1"
    and "PoolStakerSmoothingPoolEth (totals r1) = PoolStakerSmoothingPoolEth (totals r)"
proof -
  let ?st = "networkState r"
  obtain ts tt where t: "oDaoNodeTimes r (OracleDaoMembers ?st) (Map.empty, 0) = (ts, tt)"
    by (cases "oDaoNodeTimes r (OracleDaoMembers ?st) (Map.empty, 0)") auto
  from assms t obtain r2 where
    l: "oDaoLoop rp ts (oDaoBudget ?st) tt (OracleDaoMembers ?st) r = Inr r2"
    and d: "\<not> epsilon r2 < \<bar>oDaoBudget ?st - sumOracleDaoRpl r2\<bar>"
    and r1: "r1 = r2\<lparr>totals := (totals r2)\<lparr>TotalOracleDaoRpl := sumOracleDaoRpl r2,
                                           ProtocolDaoRpl := p - sumOracleDaoRpl r2\<rparr>\<rparr>"
    by (auto simp: oDaoRewards_def oDaoBudget_def Let_def split: if_splits sum.splits)
  note e = oDaoLoop_effect[OF l]
  have sh: "oDaoShares r = map (oDaoShare ts (oDaoBudget ?st) tt) (OracleDaoMembers ?st)"
    by (simp add: oDaoShares_def Let_def t)
  from e show "sameInputs r r1" by (simp add: r1 preserved_def sameInputs_def)
  from e show "TotalOracleDaoRpl (totals r1) = sumOracleDaoRpl r + sum_list (oDaoShares r)"
    by (simp add: r1 sh)
  from e d show "\<bar>oDaoBudget ?st - TotalOracleDaoRpl (totals r1)\<bar> \<le> epsilon r"
    by (simp add: r1 preserved_def)
  show "ProtocolDaoRpl (totals r1) = p - TotalOracleDaoRpl (totals r1)"
    by (simp add: r1)
  from e show "TotalCollateralRpl (totals r1) = TotalCollateralRpl (totals r)"
    by (simp add: r1 preserved_def)
  from e show "keysDistinct r1" if "keysDistinct r"
    using that by (simp add: r1 keysDistinct_def)
  from e show "PoolStakerSmoothingPoolEth (totals r1) = PoolStakerSmoothingPoolEth (totals r)"
    by (simp add: r1 preserved_def)
qed

subsection \<open>The smoothing pool shares\<close>

lemma sumSmoothingPoolEth_update:
  "sumSmoothingPoolEth (AList.update k v nds)
     = sumSmoothingPoolEth nds + nsd_SmoothingPoolEth v
       - (case map_of nds k of None \<Rightarrow> 0 | Some w \<Rightarrow> nsd_SmoothingPoolEth w)"
  by (simp add: sumSmoothingPoolEth_def sum_list_update)

lemma allMinipools_update:
  "mset (allMinipools (AList.update k v nds)) + (case map_of nds k of None \<Rightarrow> {#} | Some w \<Rightarrow> mset (Minipools w))
     = mset (allMinipools nds) + mset (Minipools v)"
  by (induction nds) (auto simp: allMinipools_def)

lemma set_update_subset: "set (AList.update k v al) \<subseteq> insert (k, v) (set al)"
  by (induction al) auto

lemma minipoolLoop_effect:
  assumes "minipoolLoop st cheaters share ts ms nds = Inr nds1"
  shows "sumSmoothingPoolEth nds1 = sumSmoothingPoolEth nds + sum_list (map (minipoolShare share ts) ms)
    \<and> mset (map scored (allMinipools nds1))
        = mset (map scored (allMinipools nds))
          + mset (map (\<lambda>m. (mp_Address m, AttestationScore m, minipoolShare share ts m)) ms)
    \<and> fst ` set nds1 \<subseteq> fst ` set nds \<union> mp_NodeAddress ` set ms
    \<and> ((\<forall>x \<in> set nds. nodeInvariant cheaters x) \<longrightarrow> (\<forall>x \<in> set nds1. nodeInvariant cheaters x))
    \<and> (distinct (map fst nds) \<longrightarrow> distinct (map fst nds1))"
  using assms
proof (induction ms arbitrary: nds)
  case Nil
  then show ?case by simp
next
  case (Cons m ms)
  let ?k = "mp_NodeAddress m"
  from Cons.prems obtain nodeInfo nmd where
    ni: "(case map_of nds ?k of Some nodeInfo \<Rightarrow> Inr nodeInfo
          | None \<Rightarrow> (case NodeDetailsByAddress st ?k of None \<Rightarrow> Inl Panic
                      | Some nnd \<Rightarrow> Inr (newNodeSmoothingDetails nnd (?k \<in> cheaters)))) = Inr nodeInfo"
    and nmd: "MinipoolDetailsByAddress st (mp_Address m) = Some nmd"
    by (auto split: sum.splits option.splits)
  define m1 where "m1 = m\<lparr>NodeOperatorBond := NodeDepositBalance nmd, MinipoolShare := minipoolShare share ts m\<rparr>"
  define n1 where "n1 = nodeInfo\<lparr>Minipools := Minipools nodeInfo @ [m1],
      nsd_SmoothingPoolEth := nsd_SmoothingPoolEth nodeInfo + minipoolShare share ts m\<rparr>"
  from Cons.prems ni nmd have l: "minipoolLoop st cheaters share ts ms (AList.update ?k n1 nds) = Inr nds1"
    by (simp add: Let_def m1_def n1_def minipoolShare_def)
  note ih = Cons.IH[OF l]
  have old: "(case map_of nds ?k of None \<Rightarrow> 0 | Some w \<Rightarrow> nsd_SmoothingPoolEth w) = nsd_SmoothingPoolEth nodeInfo"
    "(case map_of nds ?k of None \<Rightarrow> {#} | Some w \<Rightarrow> mset (Minipools w)) = mset (Minipools nodeInfo)"
    using ni by (auto simp: newNodeSmoothingDetails_def split: option.splits)
  have s: "sumSmoothingPoolEth (AList.update ?k n1 nds) = sumSmoothingPoolEth nds + minipoolShare share ts m"
    unfolding sumSmoothingPoolEth_update old by (simp add: n1_def)
  have a: "mset (allMinipools (AList.update ?k n1 nds)) = mset (allMinipools nds) + {#m1#}"
    using allMinipools_update[of ?k n1 nds] unfolding old by (simp add: n1_def)
  have a': "mset (map scored (allMinipools (AList.update ?k n1 nds)))
             = mset (map scored (allMinipools nds)) + {#(mp_Address m, AttestationScore m, minipoolShare share ts m)#}"
    using arg_cong[OF a, of "image_mset scored"] by (simp add: scored_def m1_def)
  have k: "fst ` set (AList.update ?k n1 nds) = insert ?k (fst ` set nds)"
    by (simp add: dom_update)
  have inv: "\<forall>x \<in> set (AList.update ?k n1 nds). nodeInvariant cheaters x"
    if "\<forall>x \<in> set nds. nodeInvariant cheaters x"
  proof -
    have "nodeInvariant cheaters (?k, nodeInfo)"
      using ni that by (auto simp: nodeInvariant_def newNodeSmoothingDetails_def
          split: option.splits dest!: map_of_SomeD)
    then have "nodeInvariant cheaters (?k, n1)" by (simp add: nodeInvariant_def n1_def)
    with that set_update_subset[of ?k n1 nds] show ?thesis by auto
  qed
  from ih s a' k inv show ?case
    by (auto simp: distinct_update)
qed

subsection \<open>The bonuses\<close>

lemma mpStable_refl [simp]: "mpStable m m"
  by (simp add: mpStable_def)

lemma list_all2_mpStable_refl [simp]: "list_all2 mpStable ms ms"
  by (simp add: list_all2_refl)

lemma nodeStable_refl [simp]: "nodeStable x x"
  by (cases x) (simp add: nodeStable_def)

lemma mpStable_trans: "mpStable m m1 \<Longrightarrow> mpStable m1 m2 \<Longrightarrow> mpStable m m2"
  by (simp add: mpStable_def)

lemma list_all2_mpStable_trans:
  "list_all2 mpStable xs ys \<Longrightarrow> list_all2 mpStable ys zs \<Longrightarrow> list_all2 mpStable xs zs"
  by (rule list_all2_trans[where ?P1.0 = mpStable and ?P2.0 = mpStable]) (rule mpStable_trans)

lemma nodeStable_trans: "nodeStable x y \<Longrightarrow> nodeStable y z \<Longrightarrow> nodeStable x z"
  by (cases x; cases y; cases z) (auto simp: nodeStable_def intro: list_all2_mpStable_trans)

lemma list_all2_nodeStable_trans:
  "list_all2 nodeStable xs ys \<Longrightarrow> list_all2 nodeStable ys zs \<Longrightarrow> list_all2 nodeStable xs zs"
  by (rule list_all2_trans[where ?P1.0 = nodeStable and ?P2.0 = nodeStable]) (rule nodeStable_trans)

lemma nodeStable_lists:
  assumes "list_all2 nodeStable nds nds1"
  shows "map fst nds1 = map fst nds"
    and "sumSmoothingPoolEth nds1 = sumSmoothingPoolEth nds"
    and "map scored (allMinipools nds1) = map scored (allMinipools nds)"
  using assms
proof (induction rule: list_all2_induct)
  case Nil
  { case 1 show ?case by simp }
  { case 2 show ?case by simp }
  { case 3 show ?case by simp }
next
  case (Cons x xs y ys)
  have m: "map scored (Minipools (snd y)) = map scored (Minipools (snd x))"
  proof -
    from Cons(1) have "list_all2 mpStable (Minipools (snd x)) (Minipools (snd y))"
      by (cases x; cases y) (simp add: nodeStable_def)
    then show ?thesis
      by (induction rule: list_all2_induct) (auto simp: scored_def mpStable_def)
  qed
  { case 1 from Cons show ?case by (cases x; cases y) (simp add: nodeStable_def) }
  { case 2 from Cons show ?case
      by (cases x; cases y) (simp add: nodeStable_def sumSmoothingPoolEth_def) }
  { case 3 from Cons m show ?case
      by (cases x; cases y) (simp add: allMinipools_def) }
qed

lemma minipoolBonus_effect:
  assumes "minipoolBonus mpi fee m = Inr (m1, b)"
  shows "mpStable m m1" and "0 \<le> b" and "bonusOf m1 = b"
    and "MinipoolBonus m1 \<noteq> None \<Longrightarrow> TotalFee m1 = fee \<and> fee \<le> fourteenPercentEth \<and> NodeFee mpi < fee"
  using assms
  by (auto simp: minipoolBonus_def mpStable_def bonusOf_def Let_def split: if_splits option.splits)

lemma minipoolBonuses_effect:
  assumes "minipoolBonuses st pct ms = Inr (ms1, tot)"
  shows "list_all2 mpStable ms ms1 \<and> 0 \<le> tot \<and> sum_list (map bonusOf ms1) = tot
    \<and> (\<forall>m \<in> set ms1. MinipoolBonus m \<noteq> None \<longrightarrow>
          TotalFee m = feeWithBonus pct \<and> TotalFee m \<le> fourteenPercentEth)"
  using assms
proof (induction ms arbitrary: ms1 tot)
  case Nil
  then show ?case by simp
next
  case (Cons m ms)
  from Cons.prems obtain mpi m1 b ms2 t where
    mb: "minipoolBonus mpi (feeWithBonus pct) m = Inr (m1, b)"
    and r: "minipoolBonuses st pct ms = Inr (ms2, t)"
    and e: "ms1 = m1 # ms2" "tot = b + t"
    by (auto split: option.splits sum.splits)
  from Cons.IH[OF r] minipoolBonus_effect[OF mb] e show ?case
    by auto
qed

lemma nodeBonuses_effect:
  assumes "nodeBonuses st n = Inr (n1, b)"
  shows "bonusRel st (a, n) (a, n1)" and "BonusEth n1 = BonusEth n + b" and "0 \<le> b"
proof -
  show "bonusRel st (a, n) (a, n1)"
  proof (cases "IsEligible n")
    case False
    with assms show ?thesis by (simp add: nodeBonuses_def bonusRel_def)
  next
    case True
    with assms obtain nd ms1 where nd: "NodeDetailsByAddress st (nsd_Address n) = Some nd"
      and mb: "minipoolBonuses st (PercentOfBorrowedEth st nd) (Minipools n) = Inr (ms1, b)"
      and n1: "n1 = n\<lparr>Minipools := ms1, BonusEth := BonusEth n + b\<rparr>"
      by (auto simp: nodeBonuses_def split: option.splits sum.splits)
    from minipoolBonuses_effect[OF mb] True nd show ?thesis
      by (auto simp: bonusRel_def nodeStable_def n1)
  qed
  show "BonusEth n1 = BonusEth n + b" "0 \<le> b"
    using assms minipoolBonuses_effect
    by (auto simp: nodeBonuses_def split: if_splits option.splits sum.splits)
qed

lemma bonusRel_nodeStable: "list_all2 (bonusRel st) nds nds1 \<Longrightarrow> list_all2 nodeStable nds nds1"
  by (erule list_all2_mono) (auto simp: bonusRel_def)

lemma calculateNodeBonuses_effect:
  assumes "calculateNodeBonuses st nds = Inr (nds1, tot)"
  shows "list_all2 (bonusRel st) nds nds1 \<and> 0 \<le> tot \<and> sumBonusEth nds1 = sumBonusEth nds + tot"
  using assms
proof (induction nds arbitrary: nds1 tot)
  case Nil
  then show ?case by (simp add: sumBonusEth_def)
next
  case (Cons x nds)
  obtain a n where x: "x = (a, n)" by (cases x)
  from Cons.prems x obtain n1 b nds2 t where
    nb: "nodeBonuses st n = Inr (n1, b)"
    and r: "calculateNodeBonuses st nds = Inr (nds2, t)"
    and e: "nds1 = (a, n1) # nds2" "tot = b + t"
    by (auto split: sum.splits)
  from Cons.IH[OF r] nodeBonuses_effect(1)[OF nb, of a] nodeBonuses_effect(2,3)[OF nb] x e show ?case
    by (simp add: sumBonusEth_def)
qed

lemma scaleMinipoolBonuses_effect:
  assumes "scaleMinipoolBonuses rem tot ms = Inr ms2"
  shows "list_all2 mpStable ms ms2 \<and> list_all2 (mpScaled rem tot) ms ms2"
  using assms
proof (induction ms arbitrary: ms2)
  case Nil
  then show ?case by simp
next
  case (Cons m ms)
  from Cons.prems obtain m1 ms1 where
    a: "scaleMinipoolBonus rem tot m = Inr m1"
    and r: "scaleMinipoolBonuses rem tot ms = Inr ms1"
    and e: "ms2 = m1 # ms1"
    by (auto split: sum.splits)
  from a have "mpStable m m1 \<and> mpScaled rem tot m m1"
    by (auto simp: scaleMinipoolBonus_def mpStable_def mpScaled_def split: option.splits)
  with Cons.IH[OF r] e show ?case by simp
qed

lemma scaleBonuses_effect:
  assumes "scaleBonuses rem tot nds = Inr nds2"
  shows "list_all2 nodeStable nds nds2 \<and> list_all2 (nodeScaled rem tot) nds nds2"
  using assms
proof (induction nds arbitrary: nds2)
  case Nil
  then show ?case by simp
next
  case (Cons x nds)
  obtain a n where x: "x = (a, n)" by (cases x)
  from Cons.prems x obtain n1 nds1 where
    s: "scaleNodeBonus rem tot n = Inr n1"
    and r: "scaleBonuses rem tot nds = Inr nds1"
    and e: "nds2 = (a, n1) # nds1"
    by (auto split: sum.splits)
  from s obtain ms1 where ms: "scaleMinipoolBonuses rem tot (Minipools n) = Inr ms1"
    and n1: "n1 = n\<lparr>BonusEth := big_Div (BonusEth n * rem) tot, Minipools := ms1\<rparr>"
    by (auto simp: scaleNodeBonus_def split: sum.splits)
  from scaleMinipoolBonuses_effect[OF ms] have "nodeStable (a, n) (a, n1) \<and> nodeScaled rem tot (a, n) (a, n1)"
    by (simp add: nodeStable_def nodeScaled_def n1)
  with Cons.IH[OF r] x e show ?case by simp
qed

lemma div_add_le:
  fixes t :: int
  assumes "0 < t"
  shows "a div t + b div t \<le> (a + b) div t"
proof -
  have "(a + b) div t = a div t + b div t + (a mod t + b mod t) div t"
    by (rule div_add1_eq)
  moreover have "0 \<le> (a mod t + b mod t) div t"
    using assms by (simp add: pos_imp_zdiv_nonneg_iff)
  ultimately show ?thesis by linarith
qed

lemma sum_list_div_le:
  fixes t :: int
  assumes "0 < t"
  shows "sum_list (map (\<lambda>b. (b * c) div t) bs) \<le> (sum_list bs * c) div t"
proof (induction bs)
  case Nil
  then show ?case by simp
next
  case (Cons b bs)
  have "(b * c) div t + (sum_list bs * c) div t \<le> (b * c + sum_list bs * c) div t"
    by (rule div_add_le[OF assms])
  with Cons show ?case by (simp add: distrib_right)
qed

lemma nodeScaled_sum:
  assumes "list_all2 (nodeScaled rem tot) nds nds2" and "0 < tot"
  shows "sumBonusEth nds2 = sum_list (map (\<lambda>b. (b * rem) div tot) (map (\<lambda>(a, n). BonusEth n) nds))"
  using assms(1)
proof (induction rule: list_all2_induct)
  case Nil
  then show ?case by (simp add: sumBonusEth_def)
next
  case (Cons x xs y ys)
  then show ?case
    by (cases x; cases y) (simp add: sumBonusEth_def nodeScaled_def big_Div_def assms(2))
qed

lemma scaled_bonuses_fit:
  assumes "list_all2 (nodeScaled rem tot) nds nds2" and "0 < tot" and "sumBonusEth nds = tot"
  shows "sumBonusEth nds2 \<le> rem"
proof -
  have "sumBonusEth nds2 \<le> (sum_list (map (\<lambda>(a, n). BonusEth n) nds) * rem) div tot"
    unfolding nodeScaled_sum[OF assms(1,2)] by (rule sum_list_div_le[OF assms(2)])
  also have "\<dots> = rem" using assms(2,3) by (simp add: sumBonusEth_def)
  finally show ?thesis .
qed

subsection \<open>The bonus cap\<close>

lemma list_all2_set2:
  "list_all2 R xs ys \<Longrightarrow> y \<in> set ys \<Longrightarrow> \<exists>x \<in> set xs. R x y"
  by (induction rule: list_all2_induct) auto

lemma feeWithBonus_le_fourteenPercent: "feeWithBonus pct \<le> fourteenPercentEth"
proof -
  have "min tenEth pct * pointOhFourEth \<le> tenEth * pointOhFourEth"
    by (simp add: pointOhFourEth_def mult_right_mono)
  then have "(min tenEth pct * pointOhFourEth) div tenEth \<le> (tenEth * pointOhFourEth) div tenEth"
    by (simp add: zdiv_mono1 tenEth_def oneEth_def)
  then show ?thesis
    by (simp add: feeWithBonus_def big_Div_def tenEth_def oneEth_def pointOhFourEth_def
        pointOneEth_def fourteenPercentEth_def)
qed

text \<open>
  C5. In a successful bonus calculation, every minipool of an eligible node that receives a
  bonus has its effective commission \<open>TotalFee\<close> raised to the floor
  \<open>feeWithBonus\<close> of its node, and that commission is at most 0.14 at the scale of 1e18. A
  minipool whose raised fee is above 0.14 makes the calculation return an error; the fee is
  not clamped.
\<close>

theorem bonus_fee_at_most_fourteen_percent:
  "(calculateNodeBonuses st nds = Inr (nds1, tot) \<longrightarrow>
      (\<forall>(a, n) \<in> set nds1. IsEligible n \<longrightarrow>
         (\<forall>m \<in> set (Minipools n). MinipoolBonus m \<noteq> None \<longrightarrow>
            TotalFee m \<le> 140000000000000000
            \<and> (\<exists>nd. NodeDetailsByAddress st (nsd_Address n) = Some nd
                  \<and> TotalFee m = feeWithBonus (PercentOfBorrowedEth st nd)))))
   \<and> (IsEligibleForBonuses mpd \<and> NodeFee mpi < fee \<and> 140000000000000000 < fee
        \<longrightarrow> minipoolBonus mpi fee mpd = Inl FeeAboveMaximum)"
proof (intro conjI impI)
  assume c: "calculateNodeBonuses st nds = Inr (nds1, tot)"
  show "\<forall>(a, n) \<in> set nds1. IsEligible n \<longrightarrow>
         (\<forall>m \<in> set (Minipools n). MinipoolBonus m \<noteq> None \<longrightarrow>
            TotalFee m \<le> 140000000000000000
            \<and> (\<exists>nd. NodeDetailsByAddress st (nsd_Address n) = Some nd
                  \<and> TotalFee m = feeWithBonus (PercentOfBorrowedEth st nd)))"
  proof (clarify)
    fix a n m b
    assume n: "(a, n) \<in> set nds1" and e: "IsEligible n" and m: "m \<in> set (Minipools n)"
      and b: "MinipoolBonus m = Some b"
    from calculateNodeBonuses_effect[OF c] n obtain x where "x \<in> set nds" and r: "bonusRel st x (a, n)"
      by (blast dest: list_all2_set2)
    obtain a0 n0 where x: "x = (a0, n0)" by (cases x)
    from r x e have e0: "IsEligible n0" and ad: "nsd_Address n = nsd_Address n0"
      by (auto simp: bonusRel_def nodeStable_def)
    with r x m b show "TotalFee m \<le> 140000000000000000
            \<and> (\<exists>nd. NodeDetailsByAddress st (nsd_Address n) = Some nd
                  \<and> TotalFee m = feeWithBonus (PercentOfBorrowedEth st nd))"
      by (auto simp: bonusRel_def fourteenPercentEth_def)
  qed
next
  assume "IsEligibleForBonuses mpd \<and> NodeFee mpi < fee \<and> 140000000000000000 < fee"
  then show "minipoolBonus mpi fee mpd = Inl FeeAboveMaximum"
    by (simp add: minipoolBonus_def fourteenPercentEth_def)
qed

theorem bonus_fee_at_most_fourteen_percent_witness:
  "calculateNodeBonuses (exState 1000 ([1 \<mapsto> 3, 2 \<mapsto> 1], 4) 1000000 200000000000000000)
       (exNodeSmoothingDetails 1000000)
     = Inr ([(1, \<lparr>nsd_Address = 1, IsEligible = True,
                   Minipools = [(exMinipoolInfo 11 1 1000000)
                       \<lparr>NodeOperatorBond := 8000000000000000000, MinipoolShare := 100000,
                        TotalFee := 120000000000000000, MinipoolBonus := Some 52500\<rparr>],
                   nsd_SmoothingPoolEth = 100000, BonusEth = 52500, RewardsNetwork = 0\<rparr>)], 52500)
   \<and> (120000000000000000 :: int) \<le> 140000000000000000
   \<and> IsEligibleForBonuses (exMinipoolInfo 11 1 1000000)
   \<and> NodeFee exMinipool11 < 150000000000000000
   \<and> minipoolBonus exMinipool11 150000000000000000 (exMinipoolInfo 11 1 1000000) = Inl FeeAboveMaximum"
  using bonus_fee_at_most_fourteen_percent
    [of "exState 1000 ([1 \<mapsto> 3, 2 \<mapsto> 1], 4) 1000000 200000000000000000"
        "exNodeSmoothingDetails 1000000"
        "[(1, \<lparr>nsd_Address = 1, IsEligible = True,
                   Minipools = [(exMinipoolInfo 11 1 1000000)
                       \<lparr>NodeOperatorBond := 8000000000000000000, MinipoolShare := 100000,
                        TotalFee := 120000000000000000, MinipoolBonus := Some 52500\<rparr>],
                   nsd_SmoothingPoolEth = 100000, BonusEth = 52500, RewardsNetwork = 0\<rparr>)]"
        52500 "exMinipoolInfo 11 1 1000000" exMinipool11
        150000000000000000]
  by (simp add: exNodeSmoothingDetails_def bonus_defs ex_defs)

subsection \<open>The ETH phase\<close>

lemma addSmoothingPoolEth_effect:
  assumes "addSmoothingPoolEth rp r a n = Inr r1"
  shows "preserved r r1" and "keysDistinct r \<Longrightarrow> keysDistinct r1"
proof -
  from assms obtain y r0 where g: "getNodeReward rp r a (Inr (RewardsNetwork n)) = Inr (y, r0)"
    by (auto simp: addSmoothingPoolEth_def split: sum.splits)
  note p = getNodeReward_preserved[OF g]
  from assms g p(1) show "preserved r r1"
    by (auto simp: addSmoothingPoolEth_def Let_def preserved_def)
  show "keysDistinct r1" if "keysDistinct r"
    using assms g getNodeReward_distinct[OF g that]
    by (auto simp: addSmoothingPoolEth_def Let_def keysDistinct_def distinct_update)
qed

lemma ethLoop_effect:
  assumes "ethLoop rp nds r = Inr r1"
  shows "preserved r r1 \<and> (keysDistinct r \<longrightarrow> keysDistinct r1)"
  using assms
proof (induction nds arbitrary: r)
  case Nil
  then show ?case by simp
next
  case (Cons x nds)
  obtain a n where x: "x = (a, n)" by (cases x)
  show ?case
  proof (cases "0 < nsd_SmoothingPoolEth n")
    case True
    with Cons.prems x obtain r0 where a: "addSmoothingPoolEth rp r a n = Inr r0"
      and l: "ethLoop rp nds r0 = Inr r1"
      by (auto split: sum.splits)
    from Cons.IH[OF l] addSmoothingPoolEth_effect[OF a] show ?thesis
      by (auto intro: preserved_trans)
  next
    case False
    with Cons.prems x have "ethLoop rp nds r = Inr r1" by simp
    from Cons.IH[OF this] show ?thesis .
  qed
qed

lemma allMinipools_awardBonus [simp]: "allMinipools (map awardBonus nds) = allMinipools nds"
  by (induction nds) (auto simp: allMinipools_def awardBonus_def)

lemma sumBonusEth_awardBonus [simp]: "sumBonusEth (map awardBonus nds) = sumBonusEth nds"
  by (induction nds) (auto simp: sumBonusEth_def awardBonus_def)

lemma bonusPhase_cases:
  assumes "bonusPhase r nds totalEth = Inr (nds2, scalar)"
  obtains (off) "\<not> 10 \<le> RulesetVersion r" "nds2 = nds" "scalar = oneEth"
  | (enough) nds1 tot where "10 \<le> RulesetVersion r"
      "calculateNodeBonuses (networkState r) nds = Inr (nds1, tot)"
      "\<not> smoothingPoolBalance r - totalEth < tot" "nds2 = nds1" "scalar = oneEth"
  | (scaled) nds1 tot where "10 \<le> RulesetVersion r"
      "calculateNodeBonuses (networkState r) nds = Inr (nds1, tot)"
      "smoothingPoolBalance r - totalEth < tot" "tot \<noteq> 0"
      "scaleBonuses (smoothingPoolBalance r - totalEth) tot nds1 = Inr nds2"
      "scalar = big_Div ((smoothingPoolBalance r - totalEth) * oneEth) tot"
  using assms
  by (auto simp: bonusPhase_def Let_def split: if_splits sum.splits)

lemma bonusPhase_stable:
  assumes "bonusPhase r nds totalEth = Inr (nds2, scalar)"
  shows "list_all2 nodeStable nds nds2"
  using assms
proof (cases rule: bonusPhase_cases)
  case off
  then show ?thesis by (simp add: list_all2_refl)
next
  case (enough nds1 tot)
  with calculateNodeBonuses_effect[OF enough(2)] show ?thesis
    by (auto dest: bonusRel_nodeStable)
next
  case (scaled nds1 tot)
  from calculateNodeBonuses_effect[OF scaled(2)] scaleBonuses_effect[OF scaled(5)] show ?thesis
    by (auto dest: bonusRel_nodeStable intro: list_all2_nodeStable_trans)
qed

lemma calculateNodeRewards_nothing:
  assumes "GetScores (rollingRecord r) (getCheaters r) = (ms, ts, cnt)" and "ts = 0 \<or> cnt = 0"
  shows "calculateNodeRewards r = Inr (smoothingPoolBalance r, 0, oneEth, r)"
  using assms by (simp add: calculateNodeRewards_def Let_def)

lemma calculateNodeRewards_shares:
  assumes "GetScores (rollingRecord r) (getCheaters r) = (ms, ts, cnt)" and "ts \<noteq> 0" and "cnt \<noteq> 0"
    and "minipoolLoop (networkState r) (getCheaters r)
           (totalNodeOpShare (smoothingPoolBalance r) ts cnt) ts ms [] = Inr nds"
    and "bonusPhase r nds (sumSmoothingPoolEth nds) = Inr (nds1, scalar)"
  shows "calculateNodeRewards r =
     (if int64 cnt = 0 then Inl Panic
      else if epsilon r < \<bar>sumSmoothingPoolEth nds - totalNodeOpShare (smoothingPoolBalance r) ts cnt\<bar>
      then Inl SmoothingPoolTotalError
      else Inr (smoothingPoolBalance r
                  - (if 10 \<le> RulesetVersion r then sumSmoothingPoolEth nds + sumBonusEth nds1
                     else sumSmoothingPoolEth nds),
                if 10 \<le> RulesetVersion r then sumSmoothingPoolEth nds + sumBonusEth nds1
                else sumSmoothingPoolEth nds,
                scalar,
                r\<lparr>nodeDetails := (if 10 \<le> RulesetVersion r then map awardBonus nds1 else nds1)\<rparr>))"
  using assms by (simp add: calculateNodeRewards_def Let_def)

lemma calculateNodeRewards_cases:
  assumes "calculateNodeRewards r = Inr (pool, nodeOp, scalar, r1)"
    and "GetScores (rollingRecord r) (getCheaters r) = (ms, ts, cnt)"
  obtains (nothing) "ts = 0 \<or> cnt = 0" "pool = smoothingPoolBalance r" "nodeOp = 0"
      "scalar = oneEth" "r1 = r"
  | (shares) nds nds1 where "ts \<noteq> 0" "cnt \<noteq> 0"
      "minipoolLoop (networkState r) (getCheaters r)
         (totalNodeOpShare (smoothingPoolBalance r) ts cnt) ts ms [] = Inr nds"
      "bonusPhase r nds (sumSmoothingPoolEth nds) = Inr (nds1, scalar)"
      "\<bar>sumSmoothingPoolEth nds - totalNodeOpShare (smoothingPoolBalance r) ts cnt\<bar> \<le> epsilon r"
      "r1 = r\<lparr>nodeDetails := (if 10 \<le> RulesetVersion r then map awardBonus nds1 else nds1)\<rparr>"
      "nodeOp = (if 10 \<le> RulesetVersion r then sumSmoothingPoolEth nds + sumBonusEth nds1
                 else sumSmoothingPoolEth nds)"
      "pool = smoothingPoolBalance r - nodeOp"
proof (cases "ts = 0 \<or> cnt = 0")
  case True
  from assms(1) calculateNodeRewards_nothing[OF assms(2) True]
  have "pool = smoothingPoolBalance r" "nodeOp = 0" "scalar = oneEth" "r1 = r"
    by auto
  with True show ?thesis by (rule nothing)
next
  case False
  then have n: "ts \<noteq> 0" "cnt \<noteq> 0" by simp_all
  let ?share = "totalNodeOpShare (smoothingPoolBalance r) ts cnt"
  obtain nds where ml: "minipoolLoop (networkState r) (getCheaters r) ?share ts ms [] = Inr nds"
    using assms n
    by (cases "minipoolLoop (networkState r) (getCheaters r) ?share ts ms []")
       (simp_all add: calculateNodeRewards_def Let_def split: if_splits)
  obtain nds1 sc where bp: "bonusPhase r nds (sumSmoothingPoolEth nds) = Inr (nds1, sc)"
    using assms n ml
    by (cases "bonusPhase r nds (sumSmoothingPoolEth nds)")
       (auto simp add: calculateNodeRewards_def Let_def split: if_splits)
  from assms(1) calculateNodeRewards_shares[OF assms(2) n ml bp]
  have "\<bar>sumSmoothingPoolEth nds - ?share\<bar> \<le> epsilon r" "sc = scalar"
    "r1 = r\<lparr>nodeDetails := (if 10 \<le> RulesetVersion r then map awardBonus nds1 else nds1)\<rparr>"
    "nodeOp = (if 10 \<le> RulesetVersion r then sumSmoothingPoolEth nds + sumBonusEth nds1
                 else sumSmoothingPoolEth nds)"
    "pool = smoothingPoolBalance r - nodeOp"
    by (simp_all split: if_splits)
  with n ml bp show ?thesis by (intro shares[of nds nds1]) simp_all
qed

lemma calculateEthRewards_skipped:
  assumes "SmoothingPoolBalance (Details (networkState r)) = 0 \<or> Index r = 0"
  shows "calculateEthRewards rp r flag
           = Inr (r\<lparr>smoothingPoolBalance := SmoothingPoolBalance (Details (networkState r))\<rparr>)"
  using assms by (auto simp: calculateEthRewards_def Let_def)

lemma calculateEthRewards_allocated:
  assumes "SmoothingPoolBalance (Details (networkState r)) \<noteq> 0" and "Index r \<noteq> 0"
  shows "calculateEthRewards rp r flag =
     (case getBlocksAndTimesForInterval rp
             (r\<lparr>smoothingPoolBalance := SmoothingPoolBalance (Details (networkState r))\<rparr>) of
        Inl e \<Rightarrow> Inl e
      | Inr startTime \<Rightarrow>
          (case calculateNodeRewards
                  (r\<lparr>smoothingPoolBalance := SmoothingPoolBalance (Details (networkState r)),
                     intervalSeconds := big_Quo (time_Sub (int64 (elSnapshotTime r) * 1000000000)
                                                 (int64 startTime * 1000000000)) 1000000000\<rparr>) of
             Inl e \<Rightarrow> Inl e
           | Inr (pool, nodeOp, scalar, r1) \<Rightarrow>
               (case ethLoop rp (nodeDetails r1)
                       (if 10 \<le> RulesetVersion r1 then r1\<lparr>BonusScalar := Some scalar\<rparr> else r1) of
                  Inl e \<Rightarrow> Inl e
                | Inr r3 \<Rightarrow>
                    Inr (r3\<lparr>totals := (totals r3)\<lparr>PoolStakerSmoothingPoolEth := pool,
                           NodeOperatorSmoothingPoolEth := nodeOp,
                           TotalSmoothingPoolEth := smoothingPoolBalance r3\<rparr>\<rparr>))))"
  using assms
  by (simp add: calculateEthRewards_def Let_def split: sum.splits prod.splits)

lemma calculateEthRewards_cases:
  assumes "calculateEthRewards rp r flag = Inr r2"
  obtains (skipped) "SmoothingPoolBalance (Details (networkState r)) = 0 \<or> Index r = 0"
      "r2 = r\<lparr>smoothingPoolBalance := SmoothingPoolBalance (Details (networkState r))\<rparr>"
  | (allocated) secs pool nodeOp scalar r1 r3 where
      "SmoothingPoolBalance (Details (networkState r)) \<noteq> 0" "Index r \<noteq> 0"
      "calculateNodeRewards (r\<lparr>smoothingPoolBalance := SmoothingPoolBalance (Details (networkState r)),
                                 intervalSeconds := secs\<rparr>) = Inr (pool, nodeOp, scalar, r1)"
      "preserved (if 10 \<le> RulesetVersion r1 then r1\<lparr>BonusScalar := Some scalar\<rparr> else r1) r3"
      "keysDistinct r1 \<longrightarrow> keysDistinct r3"
      "r2 = r3\<lparr>totals := (totals r3)\<lparr>PoolStakerSmoothingPoolEth := pool,
                   NodeOperatorSmoothingPoolEth := nodeOp,
                   TotalSmoothingPoolEth := smoothingPoolBalance r3\<rparr>\<rparr>"
proof (cases "SmoothingPoolBalance (Details (networkState r)) = 0 \<or> Index r = 0")
  case True
  from assms calculateEthRewards_skipped[OF True, of rp flag]
  have "r2 = r\<lparr>smoothingPoolBalance := SmoothingPoolBalance (Details (networkState r))\<rparr>"
    by auto
  with True show ?thesis by (rule skipped)
next
  case False
  then have n: "SmoothingPoolBalance (Details (networkState r)) \<noteq> 0" "Index r \<noteq> 0" by simp_all
  note u = calculateEthRewards_allocated[OF n, of rp flag]
  let ?r0 = "r\<lparr>smoothingPoolBalance := SmoothingPoolBalance (Details (networkState r))\<rparr>"
  obtain startTime where st: "getBlocksAndTimesForInterval rp ?r0 = Inr startTime"
    using assms u by (cases "getBlocksAndTimesForInterval rp ?r0") simp_all
  define secs where "secs = big_Quo (time_Sub (int64 (elSnapshotTime r) * 1000000000)
                                              (int64 startTime * 1000000000)) 1000000000"
  let ?r1 = "r\<lparr>smoothingPoolBalance := SmoothingPoolBalance (Details (networkState r)),
                 intervalSeconds := secs\<rparr>"
  obtain pool nodeOp scalar r1 where c: "calculateNodeRewards ?r1 = Inr (pool, nodeOp, scalar, r1)"
    using assms u st by (cases "calculateNodeRewards ?r1") (auto simp: secs_def)
  let ?r3 = "if 10 \<le> RulesetVersion r1 then r1\<lparr>BonusScalar := Some scalar\<rparr> else r1"
  have nd: "nodeDetails ?r3 = nodeDetails r1" by simp
  obtain r4 where l: "ethLoop rp (nodeDetails r1) ?r3 = Inr r4"
    using assms u st c by (cases "ethLoop rp (nodeDetails r1) ?r3") (simp_all add: secs_def)
  have r2: "r2 = r4\<lparr>totals := (totals r4)\<lparr>PoolStakerSmoothingPoolEth := pool,
                   NodeOperatorSmoothingPoolEth := nodeOp,
                   TotalSmoothingPoolEth := smoothingPoolBalance r4\<rparr>\<rparr>"
    using assms u st c l by (simp add: secs_def)
  have k: "keysDistinct r1 \<longrightarrow> keysDistinct r4"
    using ethLoop_effect[OF l] by (simp add: keysDistinct_def split: if_splits)
  have p: "preserved ?r3 r4" using ethLoop_effect[OF l] by simp
  from n c p k r2 show ?thesis by (rule allocated)
qed

subsection \<open>The node operators' share\<close>

lemma getCheaters_cong: "networkState r1 = networkState r \<Longrightarrow> getCheaters r1 = getCheaters r"
  by (simp add: getCheaters_def)

lemma int64_small: "n < 2 ^ 63 \<Longrightarrow> int64 n = int n"
proof -
  assume "n < 2 ^ 63"
  then have "int n < 2 ^ 63" by (metis of_nat_less_iff of_nat_numeral of_nat_power)
  then show ?thesis by (simp add: int64_def)
qed

lemma totalNodeOpShare_floor:
  assumes "0 < cnt" and "cnt < 2 ^ 63"
  shows "totalNodeOpShare bal ts cnt = (bal * ts div int cnt) div 10 ^ 18"
  using assms by (simp add: totalNodeOpShare_def big_Div_def int64_small oneEth_def)

lemma calculateNodeRewards_minipools:
  assumes "calculateNodeRewards r = Inr (pool, nodeOp, scalar, r1)"
    and "GetScores (rollingRecord r) (getCheaters r) = (ms, ts, cnt)"
    and "ts \<noteq> 0" and "cnt \<noteq> 0"
  shows "mset (map scored (allMinipools (nodeDetails r1)))
         = mset (map (\<lambda>m. (mp_Address m, AttestationScore m,
                minipoolShare (totalNodeOpShare (smoothingPoolBalance r) ts cnt) ts m)) ms)"
  using assms(1,2)
proof (cases rule: calculateNodeRewards_cases)
  case nothing
  with assms show ?thesis by simp
next
  case (shares nds nds1)
  from minipoolLoop_effect[OF shares(3)]
  have "mset (map scored (allMinipools nds))
         = mset (map (\<lambda>m. (mp_Address m, AttestationScore m,
                minipoolShare (totalNodeOpShare (smoothingPoolBalance r) ts cnt) ts m)) ms)"
    by (simp add: allMinipools_def)
  moreover have "map scored (allMinipools nds1) = map scored (allMinipools nds)"
    by (rule nodeStable_lists(3)[OF bonusPhase_stable[OF shares(4)]])
  then have "mset (map scored (allMinipools nds1)) = mset (map scored (allMinipools nds))"
    by (rule arg_cong)
  moreover have "allMinipools (nodeDetails r1) = allMinipools nds1"
    by (simp add: shares(6))
  ultimately show ?thesis by (simp only:)
qed

text \<open>
  C7. When the smoothing pool balance and the interval index are not zero and the rolling
  record reports a positive total score and a positive attestation count, the node operators'
  share is \<open>\<lfloor>\<lfloor>balance \<times> totalScore / count\<rfloor> / 1e18\<rfloor>\<close>, dividing by the count first, and the
  scored minipools are exactly the minipools of the node details, each with the base share
  \<open>\<lfloor>share \<times> score / totalScore\<rfloor>\<close>. The count is an unsigned 64-bit value that the code converts
  with \<^verbatim>\<open>int64\<close>, so it is taken below \<open>2\<^sup>6\<^sup>3\<close>; for positive divisors the Euclidean division of
  \<^verbatim>\<open>big.Int\<close> is the floor.
\<close>

theorem node_operator_share_is_two_step_floor:
  assumes "calculateEthRewards rp r checkBeaconPerformance = Inr r2"
    and "SmoothingPoolBalance (Details (networkState r)) = balance" and "balance \<noteq> 0"
    and "Index r \<noteq> 0"
    and "GetScores (rollingRecord r) (getCheaters r) = (minipools, totalScore, attestationCount)"
    and "0 < totalScore" and "0 < attestationCount" and "attestationCount < 2 ^ 63"
  shows "totalNodeOpShare balance totalScore attestationCount
           = (balance * totalScore div int attestationCount) div 10 ^ 18
         \<and> mset (map scored (allMinipools (nodeDetails r2)))
           = mset (map (\<lambda>m. (mp_Address m, AttestationScore m,
                  (totalNodeOpShare balance totalScore attestationCount * AttestationScore m)
                    div totalScore)) minipools)"
proof
  show "totalNodeOpShare balance totalScore attestationCount
           = (balance * totalScore div int attestationCount) div 10 ^ 18"
    using assms(7,8) by (rule totalNodeOpShare_floor)
  from assms(1) show "mset (map scored (allMinipools (nodeDetails r2)))
           = mset (map (\<lambda>m. (mp_Address m, AttestationScore m,
                  (totalNodeOpShare balance totalScore attestationCount * AttestationScore m)
                    div totalScore)) minipools)"
  proof (cases rule: calculateEthRewards_cases)
    case skipped
    with assms show ?thesis by simp
  next
    case (allocated secs pool nodeOp scalar r1 r3)
    let ?r = "r\<lparr>smoothingPoolBalance := SmoothingPoolBalance (Details (networkState r)),
                  intervalSeconds := secs\<rparr>"
    have g: "GetScores (rollingRecord ?r) (getCheaters ?r) = (minipools, totalScore, attestationCount)"
      using assms(5) by (simp add: getCheaters_def)
    from assms(6,7) have nz: "totalScore \<noteq> 0" "attestationCount \<noteq> 0" by simp_all
    have "nodeDetails r2 = nodeDetails r1"
      using allocated(4,6) by (simp add: preserved_def split: if_splits)
    with calculateNodeRewards_minipools[OF allocated(3) g nz] assms(2,6) show ?thesis
      by (simp add: minipoolShare_def big_Div_def)
  qed
qed

theorem node_operator_share_is_two_step_floor_witness:
  "calculateEthRewards exClients exBase True = Inr (exEth exBase)
   \<and> SmoothingPoolBalance (Details (networkState exBase)) = 1000000
   \<and> Index exBase \<noteq> 0
   \<and> GetScores (rollingRecord exBase) (getCheaters exBase)
       = ([exMinipoolInfo 11 1 1000000], 10000000000000000000, 100)
   \<and> totalNodeOpShare 1000000 10000000000000000000 100 = 100000
   \<and> mset (map scored (allMinipools (nodeDetails (exEth exBase))))
       = {#(11, 10000000000000000000, 100000)#}"
proof -
  have b: "SmoothingPoolBalance (Details (networkState exBase)) = 1000000"
    by (simp add: exBase_def ex_defs)
  have i: "Index exBase \<noteq> 0"
    by (simp add: exBase_def ex_defs)
  have n: "SmoothingPoolBalance (Details (networkState exBase)) \<noteq> 0"
    by (simp add: b)
  have s: "getBlocksAndTimesForInterval exClients
             (exBase\<lparr>smoothingPoolBalance := SmoothingPoolBalance (Details (networkState exBase))\<rparr>) = Inr 1000"
    by (simp add: getBlocksAndTimesForInterval_def exBase_def ex_defs)
  have e: "calculateEthRewards exClients exBase True = Inr (exEth exBase)"
    unfolding exEth_def calculateEthRewards_allocated[OF n i] s
    by (simp add: exBase_def eth_defs bonus_defs ex_defs Let_def)
  have g: "GetScores (rollingRecord exBase) (getCheaters exBase)
       = ([exMinipoolInfo 11 1 1000000], 10000000000000000000, 100)"
    by (simp add: exBase_def getCheaters_def isCheater_def ex_defs Let_def)
  from node_operator_share_is_two_step_floor[OF e b _ i g] e b i g show ?thesis
    by (simp add: exMinipoolInfo_def)
qed

subsection \<open>Scaling the bonuses\<close>

lemma minipoolLoop_fresh_bonus:
  assumes "minipoolLoop st cheaters share ts ms [] = Inr nds"
  shows "sumBonusEth nds = 0"
proof -
  from minipoolLoop_effect[OF assms] have "\<forall>x \<in> set nds. nodeInvariant cheaters x" by simp
  then show ?thesis
    by (induction nds) (auto simp: sumBonusEth_def nodeInvariant_def)
qed

lemma nodeScaled_awardBonus:
  assumes "list_all2 (nodeScaled rem tot) nds nds2" and "0 < tot"
  shows "list_all2 (\<lambda>(a, n) (a2, n2). a2 = a \<and> BonusEth n2 = (BonusEth n * rem) div tot
            \<and> list_all2 (\<lambda>m m2. \<exists>b. MinipoolBonus m = Some b
                                  \<and> MinipoolBonus m2 = Some ((b * rem) div tot))
                 (Minipools n) (Minipools n2))
           nds (map awardBonus nds2)"
  using assms(1)
proof (induction rule: list_all2_induct)
  case Nil
  then show ?case by simp
next
  case (Cons x xs y ys)
  obtain a n where x: "x = (a, n)" by (cases x)
  obtain a2 n2 where y: "y = (a2, n2)" by (cases y)
  from Cons(1) x y have "list_all2 (mpScaled rem tot) (Minipools n) (Minipools n2)"
    by (simp add: nodeScaled_def)
  then have "list_all2 (\<lambda>m m2. \<exists>b. MinipoolBonus m = Some b
                                  \<and> MinipoolBonus m2 = Some ((b * rem) div tot))
                 (Minipools n) (Minipools n2)"
    by (rule list_all2_mono) (auto simp: mpScaled_def big_Div_def assms(2))
  with Cons x y show ?case
    by (simp add: nodeScaled_def awardBonus_def big_Div_def assms(2))
qed

text \<open>
  What the scaling does when it completes. Under ruleset 10, when the balance that remains
  after the base minipool shares is less than the total consensus bonus and
  \<open>calculateEthRewards\<close> returns a result, the bonus scalar it records is
  \<open>\<lfloor>remaining \<times> 1e18 / totalBonus\<rfloor>\<close>, every node's bonus and every minipool's bonus is
  \<open>\<lfloor>bonus \<times> remaining / totalBonus\<rfloor>\<close>, the direct ratio, and the bonuses of the nodes sum to
  at most the remaining balance. It returns a result only when every minipool of every node
  carries a bonus; the last section has a run where one does not.
\<close>

lemma scaled_bonuses_fit_remaining_balance:
  assumes "calculateEthRewards rp r checkBeaconPerformance = Inr r2"
    and "10 \<le> RulesetVersion r"
    and "SmoothingPoolBalance (Details (networkState r)) = balance" and "balance \<noteq> 0"
    and "Index r \<noteq> 0"
    and "GetScores (rollingRecord r) (getCheaters r) = (minipools, totalScore, attestationCount)"
    and "totalScore \<noteq> 0" and "attestationCount \<noteq> 0"
    and "minipoolLoop (networkState r) (getCheaters r)
           (totalNodeOpShare balance totalScore attestationCount) totalScore minipools [] = Inr nds"
    and "calculateNodeBonuses (networkState r) nds = Inr (nds1, totalConsensusBonus)"
    and "remainingBalance = balance - sumSmoothingPoolEth nds"
    and "remainingBalance < totalConsensusBonus"
  shows "BonusScalar r2 = Some ((remainingBalance * 10 ^ 18) div totalConsensusBonus)
    \<and> list_all2 (\<lambda>(a, n) (a2, n2). a2 = a
            \<and> BonusEth n2 = (BonusEth n * remainingBalance) div totalConsensusBonus
            \<and> list_all2 (\<lambda>m m2. \<exists>b. MinipoolBonus m = Some b
                    \<and> MinipoolBonus m2 = Some ((b * remainingBalance) div totalConsensusBonus))
                 (Minipools n) (Minipools n2))
         nds1 (nodeDetails r2)
    \<and> sumBonusEth (nodeDetails r2) \<le> remainingBalance"
  using assms(1)
proof (cases rule: calculateEthRewards_cases)
  case skipped
  with assms show ?thesis by simp
next
  case (allocated secs pool nodeOp scalar r1 r3)
  let ?r = "r\<lparr>smoothingPoolBalance := SmoothingPoolBalance (Details (networkState r)),
                intervalSeconds := secs\<rparr>"
  have g: "GetScores (rollingRecord ?r) (getCheaters ?r) = (minipools, totalScore, attestationCount)"
    using assms(6) by (simp add: getCheaters_def)
  from allocated(3) g show ?thesis
  proof (cases rule: calculateNodeRewards_cases)
    case nothing
    with assms show ?thesis by simp
  next
    case (shares nds' nds2)
    from shares(3) assms(3,9) have nds': "nds' = nds" by (simp add: getCheaters_def)
    have v: "10 \<le> RulesetVersion ?r" using assms(2) by simp
    from shares(4) have "scalar = big_Div (remainingBalance * oneEth) totalConsensusBonus
        \<and> totalConsensusBonus \<noteq> 0
        \<and> scaleBonuses remainingBalance totalConsensusBonus nds1 = Inr nds2"
      using assms(3,10,11,12) v unfolding nds'
      by (cases rule: bonusPhase_cases) simp_all
    then have sc: "scalar = big_Div (remainingBalance * oneEth) totalConsensusBonus"
      and nz: "totalConsensusBonus \<noteq> 0"
      and sb: "scaleBonuses remainingBalance totalConsensusBonus nds1 = Inr nds2"
      by simp_all
    note cb = calculateNodeBonuses_effect[OF assms(10)]
    from cb nz have pos: "0 < totalConsensusBonus" by simp
    have tot: "sumBonusEth nds1 = totalConsensusBonus"
      using cb minipoolLoop_fresh_bonus[OF assms(9)] by simp
    from scaleBonuses_effect[OF sb]
    have ns: "list_all2 (nodeScaled remainingBalance totalConsensusBonus) nds1 nds2" by simp
    have r1: "nodeDetails r1 = map awardBonus nds2" using shares(6) v by simp
    have nd: "nodeDetails r2 = map awardBonus nds2"
      using allocated(4,6) r1 by (simp add: preserved_def split: if_splits)
    have bs: "BonusScalar r2 = Some scalar"
      using allocated(4,6) shares(6) v by (simp add: preserved_def split: if_splits)
    have "sumBonusEth (nodeDetails r2) \<le> remainingBalance"
      unfolding nd sumBonusEth_awardBonus by (rule scaled_bonuses_fit[OF ns pos tot])
    with bs sc pos nodeScaled_awardBonus[OF ns pos] nd show ?thesis
      by (simp add: big_Div_def oneEth_def)
  qed
qed

lemma scaled_bonuses_fit_remaining_balance_witness:
  "calculateEthRewards exClients exScarce True = Inr (exEth exScarce)
   \<and> 10 \<le> RulesetVersion exScarce
   \<and> SmoothingPoolBalance (Details (networkState exScarce)) = 1000000
   \<and> Index exScarce \<noteq> 0
   \<and> GetScores (rollingRecord exScarce) (getCheaters exScarce)
       = ([exMinipoolInfo 11 1 100000000], 10000000000000000000, 100)
   \<and> minipoolLoop (networkState exScarce) (getCheaters exScarce)
         (totalNodeOpShare 1000000 10000000000000000000 100) 10000000000000000000
         [exMinipoolInfo 11 1 100000000] [] = Inr (exNodeSmoothingDetails 100000000)
   \<and> calculateNodeBonuses (networkState exScarce) (exNodeSmoothingDetails 100000000)
       = Inr (exBonused, 5250000)
   \<and> (900000 :: int) = 1000000 - sumSmoothingPoolEth (exNodeSmoothingDetails 100000000)
   \<and> BonusScalar (exEth exScarce) = Some ((900000 * 10 ^ 18) div 5250000)
   \<and> list_all2 (\<lambda>(a, n) (a2, n2). a2 = a
            \<and> BonusEth n2 = (BonusEth n * 900000) div 5250000
            \<and> list_all2 (\<lambda>m m2. \<exists>b. MinipoolBonus m = Some b
                    \<and> MinipoolBonus m2 = Some ((b * 900000) div 5250000))
                 (Minipools n) (Minipools n2))
         exBonused (nodeDetails (exEth exScarce))
   \<and> sumBonusEth (nodeDetails (exEth exScarce)) \<le> 900000"
proof -
  have v: "10 \<le> RulesetVersion exScarce"
    by (simp add: exScarce_def ex_defs)
  have b: "SmoothingPoolBalance (Details (networkState exScarce)) = 1000000"
    by (simp add: exScarce_def ex_defs)
  have i: "Index exScarce \<noteq> 0"
    by (simp add: exScarce_def ex_defs)
  have n: "SmoothingPoolBalance (Details (networkState exScarce)) \<noteq> 0"
    by (simp add: b)
  have s: "getBlocksAndTimesForInterval exClients
             (exScarce\<lparr>smoothingPoolBalance := SmoothingPoolBalance (Details (networkState exScarce))\<rparr>) = Inr 1000"
    by (simp add: getBlocksAndTimesForInterval_def exScarce_def ex_defs)
  have e: "calculateEthRewards exClients exScarce True = Inr (exEth exScarce)"
    unfolding exEth_def calculateEthRewards_allocated[OF n i] s
    by (simp add: exScarce_def eth_defs bonus_defs ex_defs Let_def)
  have g: "GetScores (rollingRecord exScarce) (getCheaters exScarce)
       = ([exMinipoolInfo 11 1 100000000], 10000000000000000000, 100)"
    by (simp add: exScarce_def getCheaters_def isCheater_def ex_defs Let_def)
  have m: "minipoolLoop (networkState exScarce) (getCheaters exScarce)
         (totalNodeOpShare 1000000 10000000000000000000 100) 10000000000000000000
         [exMinipoolInfo 11 1 100000000] [] = Inr (exNodeSmoothingDetails 100000000)"
    by (simp add: exScarce_def exNodeSmoothingDetails_def eth_defs bonus_defs ex_defs Let_def)
  have c: "calculateNodeBonuses (networkState exScarce) (exNodeSmoothingDetails 100000000)
       = Inr (exBonused, 5250000)"
    by (simp add: exScarce_def exNodeSmoothingDetails_def exBonused_def eth_defs bonus_defs ex_defs Let_def)
  have r: "(900000 :: int) = 1000000 - sumSmoothingPoolEth (exNodeSmoothingDetails 100000000)"
    by (simp add: exNodeSmoothingDetails_def sumSmoothingPoolEth_def)
  from scaled_bonuses_fit_remaining_balance[OF e v b _ i g _ _ m c r] e v b i g m c r
  show ?thesis by simp
qed

subsection \<open>The whole run\<close>

lemma participationTime_cong:
  "networkState r1 = networkState r \<Longrightarrow> elSnapshotTime r1 = elSnapshotTime r
     \<Longrightarrow> participationTime r1 d = participationTime r d"
  by (simp add: participationTime_def)

lemma oDaoNodeTimes_cong:
  "networkState r1 = networkState r \<Longrightarrow> elSnapshotTime r1 = elSnapshotTime r
     \<Longrightarrow> oDaoNodeTimes r1 ds acc = oDaoNodeTimes r ds acc"
proof (induction ds arbitrary: acc)
  case Nil
  then show ?case by simp
next
  case (Cons d ds)
  obtain ts tt where acc: "acc = (ts, tt)" by (cases acc)
  from Cons.prems have "participationTime r1 d = participationTime r d"
    by (rule participationTime_cong)
  with Cons.IH[OF Cons.prems] acc show ?case by simp
qed

lemma oDaoShares_cong:
  "networkState r1 = networkState r \<Longrightarrow> elSnapshotTime r1 = elSnapshotTime r
     \<Longrightarrow> oDaoShares r1 = oDaoShares r"
proof -
  assume a: "networkState r1 = networkState r" "elSnapshotTime r1 = elSnapshotTime r"
  have "oDaoNodeTimes r1 (OracleDaoMembers (networkState r)) (Map.empty, 0)
          = oDaoNodeTimes r (OracleDaoMembers (networkState r)) (Map.empty, 0)"
    using a by (rule oDaoNodeTimes_cong)
  then show ?thesis by (simp add: oDaoShares_def a(1))
qed

lemma calculateRplRewards_cases:
  assumes "calculateRplRewards rp r = Inr r2"
  obtains r1 p where "collateralRewards rp r = Inr (r1, p)" "oDaoRewards rp r1 p = Inr r2"
  using assms by (auto simp: calculateRplRewards_def split: sum.splits)

lemma generateTree_cases:
  assumes "generateTree rp merkle rangeNodes rangeNetworks r = Inr res"
  obtains r1 r2 where "calculateRplRewards rp (provision r) = Inr r1"
    "calculateEthRewards rp r1 True = Inr r2"
    "GenerateMerkleTree merkle
       \<lparr>file_TotalRewards = totals r2, file_NodeRewards = rangeNodes (nodeRewards r2),
        file_NetworkRewards = rangeNetworks (networkRewards r2), MerkleRoot = None\<rparr>
      = Inr (RewardsFile res)"
    "InvalidNetworkNodes res = invalidNetworkNodes r2"
    "res_BonusScalar res = BonusScalar r2"
    "res_MinipoolPerformance res = map sortMissingAttestationSlots (MinipoolPerformance r2)"
proof -
  obtain r1 where a: "calculateRplRewards rp (provision r) = Inr r1"
    using assms by (cases "calculateRplRewards rp (provision r)") (simp_all add: generateTree_def)
  obtain r2 where b: "calculateEthRewards rp r1 True = Inr r2"
    using assms a by (cases "calculateEthRewards rp r1 True") (simp_all add: generateTree_def)
  let ?f = "\<lparr>file_TotalRewards = totals r2, file_NodeRewards = rangeNodes (nodeRewards r2),
        file_NetworkRewards = rangeNetworks (networkRewards r2), MerkleRoot = None\<rparr>"
  obtain f1 where c: "GenerateMerkleTree merkle ?f = Inr f1"
    using assms a b by (cases "GenerateMerkleTree merkle ?f") (simp_all add: generateTree_def)
  from assms a b c have "res = \<lparr>RewardsFile = f1, InvalidNetworkNodes = invalidNetworkNodes r2,
       res_BonusScalar = BonusScalar r2,
       res_MinipoolPerformance = map sortMissingAttestationSlots (MinipoolPerformance r2)\<rparr>"
    by (simp add: generateTree_def)
  with a b c that show ?thesis by simp
qed

lemma GenerateMerkleTree_totals:
  "GenerateMerkleTree merkle f = Inr f1 \<Longrightarrow> file_TotalRewards f1 = file_TotalRewards f"
  by (auto simp: GenerateMerkleTree_def Let_def split: sum.splits)

lemma calculateEthRewards_frame:
  assumes "calculateEthRewards rp r flag = Inr r2"
  shows "sameInputs r r2
    \<and> ProtocolDaoRpl (totals r2) = ProtocolDaoRpl (totals r)
    \<and> TotalCollateralRpl (totals r2) = TotalCollateralRpl (totals r)
    \<and> TotalOracleDaoRpl (totals r2) = TotalOracleDaoRpl (totals r)
    \<and> (keysDistinct r \<longrightarrow> keysDistinct r2)"
  using assms
proof (cases rule: calculateEthRewards_cases)
  case skipped
  then show ?thesis by (simp add: sameInputs_def keysDistinct_def)
next
  case (allocated secs pool nodeOp scalar r1 r3)
  let ?r = "r\<lparr>smoothingPoolBalance := SmoothingPoolBalance (Details (networkState r)),
                intervalSeconds := secs\<rparr>"
  obtain ms ts cnt where g: "GetScores (rollingRecord ?r) (getCheaters ?r) = (ms, ts, cnt)"
    by (cases "GetScores (rollingRecord ?r) (getCheaters ?r)") auto
  have "\<exists>nds. r1 = ?r\<lparr>nodeDetails := nds\<rparr>"
    using allocated(3) g
    by (cases rule: calculateNodeRewards_cases) (auto intro: exI[of _ "nodeDetails r"])
  then obtain nds where r1: "r1 = ?r\<lparr>nodeDetails := nds\<rparr>" ..
  from allocated(4,5,6) r1 show ?thesis
    by (simp add: sameInputs_def preserved_def keysDistinct_def split: if_splits)
qed

subsection \<open>The epsilon bound\<close>

lemma newTreeGenerator_fields [simp]:
  "networkState (newTreeGenerator v i t st rr) = st"
  "rollingRecord (newTreeGenerator v i t st rr) = rr"
  "Index (newTreeGenerator v i t st rr) = i"
  "RulesetVersion (newTreeGenerator v i t st rr) = v"
  "elSnapshotTime (newTreeGenerator v i t st rr) = t"
  "nodeRewards (newTreeGenerator v i t st rr) = []"
  "networkRewards (newTreeGenerator v i t st rr) = []"
  "PoolStakerSmoothingPoolEth (totals (newTreeGenerator v i t st rr)) = 0"
  by (simp_all add: newTreeGenerator_def)

lemma provision_fresh:
  "epsilon (provision (newTreeGenerator v i t st rr))
     = max (int (length (NodeDetails st))) (int (length (MinipoolDetails st)))"
  "sumCollateralRpl (provision (newTreeGenerator v i t st rr)) = 0"
  "sumOracleDaoRpl (provision (newTreeGenerator v i t st rr)) = 0"
  "keysDistinct (provision (newTreeGenerator v i t st rr))"
  "networkState (provision (newTreeGenerator v i t st rr)) = st"
  "rollingRecord (provision (newTreeGenerator v i t st rr)) = rr"
  "Index (provision (newTreeGenerator v i t st rr)) = i"
  "RulesetVersion (provision (newTreeGenerator v i t st rr)) = v"
  "elSnapshotTime (provision (newTreeGenerator v i t st rr)) = t"
  by (auto simp: provision_def newTreeGenerator_def sumCollateralRpl_def sumOracleDaoRpl_def
      keysDistinct_def Let_def max_def)

lemma big_Quo_nonneg: "0 \<le> x \<Longrightarrow> 0 < y \<Longrightarrow> big_Quo x y = x div y"
  by (cases "x = 0") (simp_all add: big_Quo_def sgn_if)

lemma creditedShare_floor:
  assumes "0 \<le> totalNodeRewards" and "0 < totalNodeWeight"
    and "nodeWeights (NodeAddress nd) = Some nodeWeight"
  shows "creditedShare nodeWeights totalNodeRewards totalNodeWeight nd
           = calculateNodeRplRewards totalNodeRewards nodeWeight totalNodeWeight"
    and "calculateNodeRplRewards totalNodeRewards nodeWeight totalNodeWeight
           = (if nodeWeight \<le> 0 then 0 else (totalNodeRewards * nodeWeight) div totalNodeWeight)"
proof -
  show f: "calculateNodeRplRewards totalNodeRewards nodeWeight totalNodeWeight
           = (if nodeWeight \<le> 0 then 0 else (totalNodeRewards * nodeWeight) div totalNodeWeight)"
  proof (cases "nodeWeight \<le> 0")
    case True
    then show ?thesis by (simp add: calculateNodeRplRewards_def)
  next
    case False
    with assms(1) have p: "0 \<le> totalNodeRewards * nodeWeight" by simp
    have "big_Quo (totalNodeRewards * nodeWeight) totalNodeWeight
            = (totalNodeRewards * nodeWeight) div totalNodeWeight"
      using p assms(2) by (rule big_Quo_nonneg)
    with False show ?thesis by (simp add: calculateNodeRplRewards_def)
  qed
  have "0 \<le> (totalNodeRewards * nodeWeight) div totalNodeWeight" if "0 < nodeWeight"
    using that assms(1,2) by (simp add: pos_imp_zdiv_nonneg_iff)
  with f show "creditedShare nodeWeights totalNodeRewards totalNodeWeight nd
           = calculateNodeRplRewards totalNodeRewards nodeWeight totalNodeWeight"
    by (auto simp: creditedShare_def assms(3))
qed

text \<open>
  C3. In every run that completes, each of the three weighted splits is within
  \<open>epsilon = max (node count) (minipool count)\<close> of its budget: the collateral RPL credited to
  the nodes (when the total node weight is positive), the RPL shares of the oDAO members, and
  the base smoothing pool shares of the scored minipools. Equivalently, a split that is further
  from its budget makes \<open>generateTree\<close> return an error. The collateral loop credits a share
  when it is positive; with a budget that is not negative that is every share.
\<close>

theorem splits_are_within_epsilon:
  assumes "generateTree rp merkle rangeNodes rangeNetworks
             (newTreeGenerator rulesetVersion index snapshotTime st record) = Inr res"
    and "eps = max (int (length (NodeDetails st))) (int (length (MinipoolDetails st)))"
  shows "(\<forall>nodeWeights totalNodeWeight.
            CalculateNodeWeights st = Inr (nodeWeights, totalNodeWeight) \<and> 0 < totalNodeWeight \<longrightarrow>
            \<bar>collateralBudget st
               - sum_list (map (creditedShare nodeWeights (collateralBudget st) totalNodeWeight)
                               (NodeDetails st))\<bar> \<le> eps)
    \<and> \<bar>oDaoBudget st
          - sum_list (oDaoShares (newTreeGenerator rulesetVersion index snapshotTime st record))\<bar> \<le> eps
    \<and> (\<forall>minipools totalScore attestationCount.
           SmoothingPoolBalance (Details st) \<noteq> 0 \<and> index \<noteq> 0
           \<and> GetScores record (getCheaters (newTreeGenerator rulesetVersion index snapshotTime st record))
               = (minipools, totalScore, attestationCount)
           \<and> totalScore \<noteq> 0 \<and> attestationCount \<noteq> 0 \<longrightarrow>
           \<bar>totalNodeOpShare (SmoothingPoolBalance (Details st)) totalScore attestationCount
              - sum_list (map (minipoolShare
                    (totalNodeOpShare (SmoothingPoolBalance (Details st)) totalScore attestationCount)
                    totalScore) minipools)\<bar> \<le> eps)"
proof -
  let ?g = "newTreeGenerator rulesetVersion index snapshotTime st record"
  let ?r0 = "provision ?g"
  note f = provision_fresh[of rulesetVersion index snapshotTime st "record"]
  from assms(1) obtain r1 r2 where rpl: "calculateRplRewards rp ?r0 = Inr r1"
    and eth: "calculateEthRewards rp r1 True = Inr r2"
    by (rule generateTree_cases)
  from rpl obtain ra p where col: "collateralRewards rp ?r0 = Inr (ra, p)"
    and od: "oDaoRewards rp ra p = Inr r1"
    by (rule calculateRplRewards_cases)
  note cf = collateralRewards_frame[OF col]
  note oe = oDaoRewards_effect[OF od]
  have in1: "sameInputs ?r0 r1" using cf(1) oe(1) by (rule sameInputs_trans)
  have A: "\<bar>collateralBudget st
               - sum_list (map (creditedShare ws (collateralBudget st) tw) (NodeDetails st))\<bar> \<le> eps"
    if "CalculateNodeWeights st = Inr (ws, tw)" "0 < tw" for ws tw
  proof -
    have w: "CalculateNodeWeights (networkState ?r0) = Inr (ws, tw)" using that(1) by (simp add: f)
    from collateralRewards_positive(2,3)[OF col w that(2)] show ?thesis
      by (simp add: f assms(2))
  qed
  have B: "\<bar>oDaoBudget st - sum_list (oDaoShares ?g)\<bar> \<le> eps"
  proof -
    have "oDaoShares ra = oDaoShares ?g"
      using cf(1) by (intro oDaoShares_cong) (simp_all add: sameInputs_def f)
    moreover have "networkState ra = st" "epsilon ra = eps" "sumOracleDaoRpl ra = 0"
      using cf(1,2) by (simp_all add: sameInputs_def f assms(2))
    ultimately show ?thesis using oe(2,3) by simp
  qed
  have C: "\<bar>totalNodeOpShare (SmoothingPoolBalance (Details st)) ts cnt
              - sum_list (map (minipoolShare
                    (totalNodeOpShare (SmoothingPoolBalance (Details st)) ts cnt) ts) ms)\<bar> \<le> eps"
    if h: "SmoothingPoolBalance (Details st) \<noteq> 0" "index \<noteq> 0"
      "GetScores record (getCheaters ?g) = (ms, ts, cnt)" "ts \<noteq> 0" "cnt \<noteq> 0" for ms ts cnt
  proof -
    have s1: "networkState r1 = st" "rollingRecord r1 = record" "Index r1 = index" "epsilon r1 = eps"
      using in1 by (simp_all add: sameInputs_def f assms(2))
    from eth show ?thesis
    proof (cases rule: calculateEthRewards_cases)
      case skipped
      with h s1 show ?thesis by simp
    next
      case (allocated secs pool nodeOp scalar r3 r4)
      let ?r = "r1\<lparr>smoothingPoolBalance := SmoothingPoolBalance (Details (networkState r1)),
                    intervalSeconds := secs\<rparr>"
      have g: "GetScores (rollingRecord ?r) (getCheaters ?r) = (ms, ts, cnt)"
        using h(3) s1 by (simp add: getCheaters_def)
      from allocated(3) g show ?thesis
      proof (cases rule: calculateNodeRewards_cases)
        case nothing
        with h show ?thesis by simp
      next
        case (shares nds nds1)
        from minipoolLoop_effect[OF shares(3)] shares(5) s1 show ?thesis
          by (simp add: sumSmoothingPoolEth_def abs_minus_commute)
      qed
    qed
  qed
  from A B C show ?thesis by blast
qed

lemma exBase_generator:
  "exBase = provision (newTreeGenerator 10 5 3000000 exSnapshot (exRecord 1000000))"
  by (simp add: exBase_def exGenerator_def exSnapshot_def)

lemma exBase_fields:
  "networkState exBase = exSnapshot" "rollingRecord exBase = exRecord 1000000"
  "Index exBase = 5" "RulesetVersion exBase = 10" "elSnapshotTime exBase = 3000000"
  "epsilon exBase = 2"
  by (simp_all add: exBase_generator provision_def exSnapshot_def exState_def)

lemma exSnapshot_balance: "SmoothingPoolBalance (Details exSnapshot) = 1000000"
  by (simp add: exSnapshot_def exState_def)

lemma exBase_rpl: "calculateRplRewards exClients exBase = Inr (exRpl exBase)"
  by (simp add: exRpl_def exBase_def rpl_defs ex_defs Let_def)

lemma calculateRplRewards_sameInputs:
  assumes "calculateRplRewards rp r = Inr r1"
  shows "sameInputs r r1"
proof -
  from assms obtain ra p where "collateralRewards rp r = Inr (ra, p)" "oDaoRewards rp ra p = Inr r1"
    by (rule calculateRplRewards_cases)
  then show ?thesis
    by (blast intro: sameInputs_trans collateralRewards_frame(1) oDaoRewards_effect(1))
qed

lemma exBase_eth: "calculateEthRewards exClients (exRpl exBase) True = Inr (exEth (exRpl exBase))"
proof -
  from calculateRplRewards_sameInputs[OF exBase_rpl]
  have s: "networkState (exRpl exBase) = networkState exBase"
    "rollingRecord (exRpl exBase) = rollingRecord exBase" "Index (exRpl exBase) = Index exBase"
    by (simp_all add: sameInputs_def)
  have n: "SmoothingPoolBalance (Details (networkState (exRpl exBase))) \<noteq> 0"
    by (simp add: s exBase_fields exSnapshot_balance)
  have i: "Index (exRpl exBase) \<noteq> 0"
    by (simp add: s exBase_fields)
  have b: "getBlocksAndTimesForInterval exClients
             ((exRpl exBase)\<lparr>smoothingPoolBalance :=
                SmoothingPoolBalance (Details (networkState (exRpl exBase)))\<rparr>) = Inr 1000"
    by (simp add: getBlocksAndTimesForInterval_def s exBase_fields exRecord_def exClients_def)
  show ?thesis
    unfolding exEth_def calculateEthRewards_allocated[OF n i] b
    by (simp add: exRpl_def exBase_def eth_defs rpl_defs bonus_defs ex_defs Let_def)
qed

lemma exBase_tree:
  "generateTree exClients exMerkle id id (newTreeGenerator 10 5 3000000 exSnapshot (exRecord 1000000))
     = Inr (exTree (exEth (exRpl exBase)))"
  using exBase_rpl exBase_eth
  by (simp add: generateTree_def exBase_generator GenerateMerkleTree_def exMerkle_def exTree_def Let_def)

theorem splits_are_within_epsilon_witness:
  "generateTree exClients exMerkle id id (newTreeGenerator 10 5 3000000 exSnapshot (exRecord 1000000))
     = Inr (exTree (exEth (exRpl exBase)))
   \<and> (2 :: int) = max (int (length (NodeDetails exSnapshot))) (int (length (MinipoolDetails exSnapshot)))
   \<and> CalculateNodeWeights exSnapshot = Inr ([1 \<mapsto> 3, 2 \<mapsto> 1], 4)
   \<and> \<bar>collateralBudget exSnapshot
        - sum_list (map (creditedShare [1 \<mapsto> 3, 2 \<mapsto> 1] (collateralBudget exSnapshot) 4)
                        (NodeDetails exSnapshot))\<bar> \<le> 2
   \<and> \<bar>oDaoBudget exSnapshot
        - sum_list (oDaoShares (newTreeGenerator 10 5 3000000 exSnapshot (exRecord 1000000)))\<bar> \<le> 2
   \<and> SmoothingPoolBalance (Details exSnapshot) \<noteq> 0
   \<and> GetScores (exRecord 1000000)
         (getCheaters (newTreeGenerator 10 5 3000000 exSnapshot (exRecord 1000000)))
       = ([exMinipoolInfo 11 1 1000000], 10000000000000000000, 100)
   \<and> \<bar>totalNodeOpShare (SmoothingPoolBalance (Details exSnapshot)) 10000000000000000000 100
        - sum_list (map (minipoolShare
              (totalNodeOpShare (SmoothingPoolBalance (Details exSnapshot)) 10000000000000000000 100)
              10000000000000000000) [exMinipoolInfo 11 1 1000000])\<bar> \<le> 2"
proof -
  have e: "(2 :: int) = max (int (length (NodeDetails exSnapshot))) (int (length (MinipoolDetails exSnapshot)))"
    by (simp add: exSnapshot_def exState_def)
  have w: "CalculateNodeWeights exSnapshot = Inr ([1 \<mapsto> 3, 2 \<mapsto> 1], 4)"
    by (simp add: exSnapshot_def exState_def)
  have b: "SmoothingPoolBalance (Details exSnapshot) \<noteq> 0"
    by (simp add: exSnapshot_balance)
  have g: "GetScores (exRecord 1000000)
         (getCheaters (newTreeGenerator 10 5 3000000 exSnapshot (exRecord 1000000)))
       = ([exMinipoolInfo 11 1 1000000], 10000000000000000000, 100)"
    by (simp add: getCheaters_def isCheater_def exSnapshot_def ex_defs Let_def)
  note t = splits_are_within_epsilon[OF exBase_tree e]
  from t w have A: "\<bar>collateralBudget exSnapshot
        - sum_list (map (creditedShare [1 \<mapsto> 3, 2 \<mapsto> 1] (collateralBudget exSnapshot) 4)
                        (NodeDetails exSnapshot))\<bar> \<le> 2"
    by simp
  from t b g have C: "\<bar>totalNodeOpShare (SmoothingPoolBalance (Details exSnapshot)) 10000000000000000000 100
        - sum_list (map (minipoolShare
              (totalNodeOpShare (SmoothingPoolBalance (Details exSnapshot)) 10000000000000000000 100)
              10000000000000000000) [exMinipoolInfo 11 1 1000000])\<bar> \<le> 2"
    by simp
  from exBase_tree e w A t b g C show ?thesis by blast
qed

subsection \<open>Conservation of the RPL and lazily created entries\<close>

lemma rpl_conserved_when_weight_positive:
  assumes "generateTree rp merkle rangeNodes rangeNetworks r = Inr res"
    and "CalculateNodeWeights (networkState r) = Inr (nodeWeights, totalNodeWeight)"
    and "0 < totalNodeWeight"
  shows "ProtocolDaoRpl (file_TotalRewards (RewardsFile res))
         + TotalCollateralRpl (file_TotalRewards (RewardsFile res))
         + TotalOracleDaoRpl (file_TotalRewards (RewardsFile res))
         = PendingRPLRewards (Details (networkState r))"
proof -
  from assms(1) obtain r1 r2 where rpl: "calculateRplRewards rp (provision r) = Inr r1"
    and eth: "calculateEthRewards rp r1 True = Inr r2"
    and mt: "GenerateMerkleTree merkle
       \<lparr>file_TotalRewards = totals r2, file_NodeRewards = rangeNodes (nodeRewards r2),
        file_NetworkRewards = rangeNetworks (networkRewards r2), MerkleRoot = None\<rparr>
      = Inr (RewardsFile res)"
    by (rule generateTree_cases)
  from rpl obtain ra p where col: "collateralRewards rp (provision r) = Inr (ra, p)"
    and od: "oDaoRewards rp ra p = Inr r1"
    by (rule calculateRplRewards_cases)
  have w: "CalculateNodeWeights (networkState (provision r)) = Inr (nodeWeights, totalNodeWeight)"
    using assms(2) by simp
  note cp = collateralRewards_positive[OF col w assms(3)]
  note oe = oDaoRewards_effect[OF od]
  note ef = calculateEthRewards_frame[OF eth]
  have "file_TotalRewards (RewardsFile res) = totals r2"
    using GenerateMerkleTree_totals[OF mt] by simp
  with cp(4) oe(4,5) ef show ?thesis by simp
qed

text \<open>
  C1. With a pending reward of 1000, shares of 10%, 70% and 20% and a total node weight of
  zero, the run completes and records 600 for the Protocol DAO, 0 for the collateral and 200
  for the Oracle DAO: 800 in all, not the 1000 that are pending. (With a positive total
  node weight the three totals do add up to the pending amount, as
  \<open>rpl_conserved_when_weight_positive\<close> shows.)
\<close>

theorem zero_weight_run_does_not_conserve_rpl:
  "map_sum id (\<lambda>res. (ProtocolDaoRpl (file_TotalRewards (RewardsFile res)),
                        TotalCollateralRpl (file_TotalRewards (RewardsFile res)),
                        TotalOracleDaoRpl (file_TotalRewards (RewardsFile res))))
     (generateTree exClients exMerkle id id
        (exGenerator (exState 1000 ([1 \<mapsto> 0, 2 \<mapsto> 0], 0) 0 200000000000000000) (exRecord 1000000)))
     = Inr (600, 0, 200)
   \<and> PendingRPLRewards (Details (exState 1000 ([1 \<mapsto> 0, 2 \<mapsto> 0], 0) 0 200000000000000000)) = 1000
   \<and> (600 + 0 + 200 :: int) \<noteq> 1000"
  by (simp add: generateTree_def calculateEthRewards_def GenerateMerkleTree_def rpl_defs ex_defs Let_def)

text \<open>
  C9. With an Oracle DAO percentage of zero, node 1, the only oDAO member, has no weight and
  earns nothing; the run still leaves an entry for it in the node rewards, with all three
  amounts zero, beside the entry of node 2, which earns the collateral.
\<close>

theorem zero_oDao_reward_creates_an_entry:
  "map_sum id (\<lambda>res. file_NodeRewards (RewardsFile res))
     (generateTree exClients exMerkle id id
        (exGenerator (exState 1000 ([1 \<mapsto> 0, 2 \<mapsto> 1], 1) 0 0) (exRecord 1000000)))
     = Inr [(1, \<lparr>nr_Network = 0, nr_CollateralRpl = 0, nr_OracleDaoRpl = 0, nr_SmoothingPoolEth = 0\<rparr>),
            (2, \<lparr>nr_Network = 0, nr_CollateralRpl = 700, nr_OracleDaoRpl = 0, nr_SmoothingPoolEth = 0\<rparr>)]"
  by (simp add: generateTree_def calculateEthRewards_def GenerateMerkleTree_def rpl_defs ex_defs Let_def)

subsection \<open>The approximation of the pool stakers' share\<close>

lemma bonusPhase_cong:
  assumes "networkState r1 = networkState r" and "RulesetVersion r1 = RulesetVersion r"
    and "smoothingPoolBalance r1 = smoothingPoolBalance r"
  shows "bonusPhase r1 nds t = bonusPhase r nds t"
  unfolding bonusPhase_def assms by (rule refl)

lemma calculateNodeRewards_pool_cong:
  assumes "calculateNodeRewards r = Inr (pool, nodeOp, scalar, ra)"
    and "calculateNodeRewards r1 = Inr (pool1, nodeOp1, scalar1, rb)"
    and "networkState r1 = networkState r" and "rollingRecord r1 = rollingRecord r"
    and "RulesetVersion r1 = RulesetVersion r" and "smoothingPoolBalance r1 = smoothingPoolBalance r"
  shows "pool1 = pool"
proof -
  obtain ms ts cnt where g: "GetScores (rollingRecord r) (getCheaters r) = (ms, ts, cnt)"
    by (cases "GetScores (rollingRecord r) (getCheaters r)") auto
  have c: "getCheaters r1 = getCheaters r" using assms(3) by (rule getCheaters_cong)
  have g1: "GetScores (rollingRecord r1) (getCheaters r1) = (ms, ts, cnt)"
    using g assms(4) c by simp
  from assms(1) g show ?thesis
  proof (cases rule: calculateNodeRewards_cases)
    case nothing
    from assms(2) g1 show ?thesis
    proof (cases rule: calculateNodeRewards_cases)
      case nothing
      with \<open>pool = smoothingPoolBalance r\<close> assms(6) show ?thesis by simp
    next
      case (shares nds nds1)
      with \<open>ts = 0 \<or> cnt = 0\<close> show ?thesis by simp
    qed
  next
    case (shares nds nds1)
    note a = shares
    from assms(2) g1 show ?thesis
    proof (cases rule: calculateNodeRewards_cases)
      case nothing
      with a(1,2) show ?thesis by simp
    next
      case (shares nds' nds1')
      from shares(3) a(3) assms(3,6) c have n: "nds' = nds" by simp
      from shares(4) a(4) bonusPhase_cong[OF assms(3,5,6)] n have "nds1' = nds1" by simp
      with shares(7,8) a(7,8) n assms(5,6) show ?thesis by simp
    qed
  qed
qed

lemma poolStaker_determined:
  assumes "calculateEthRewards rp r f = Inr a" and "calculateEthRewards rp r1 f1 = Inr b"
    and "sameInputs r r1"
    and "PoolStakerSmoothingPoolEth (totals r1) = PoolStakerSmoothingPoolEth (totals r)"
  shows "PoolStakerSmoothingPoolEth (totals b) = PoolStakerSmoothingPoolEth (totals a)"
proof -
  from assms(3) have s: "networkState r1 = networkState r" "rollingRecord r1 = rollingRecord r"
    "RulesetVersion r1 = RulesetVersion r" "Index r1 = Index r"
    by (simp_all add: sameInputs_def)
  from assms(1) show ?thesis
  proof (cases rule: calculateEthRewards_cases)
    case skipped
    note a = skipped
    from assms(2) show ?thesis
    proof (cases rule: calculateEthRewards_cases)
      case skipped
      with a assms(4) show ?thesis by simp
    next
      case (allocated secs pool nodeOp scalar r2 r3)
      with a s show ?thesis by simp
    qed
  next
    case (allocated secs pool nodeOp scalar r2 r3)
    note a = allocated
    from assms(2) show ?thesis
    proof (cases rule: calculateEthRewards_cases)
      case skipped
      with a(1,2) s show ?thesis by simp
    next
      case (allocated secs' pool' nodeOp' scalar' r2' r3')
      have "pool' = pool"
        by (rule calculateNodeRewards_pool_cong[OF a(3) allocated(3)]) (simp_all add: s)
      with a(6) allocated(6) show ?thesis by simp
    qed
  qed
qed

lemma calculateRplRewards_poolStaker:
  assumes "calculateRplRewards rp r = Inr r1"
  shows "PoolStakerSmoothingPoolEth (totals r1) = PoolStakerSmoothingPoolEth (totals r)"
proof -
  from assms obtain ra p where c: "collateralRewards rp r = Inr (ra, p)" and o: "oDaoRewards rp ra p = Inr r1"
    by (rule calculateRplRewards_cases)
  from collateralRewards_frame(4)[OF c] oDaoRewards_effect(7)[OF o] show ?thesis by simp
qed

text \<open>
  C10. When the full run and the approximation both complete on the same generator, the
  approximation returns the pool stakers' smoothing pool ETH that the full run records in its
  total rewards; and \<open>calculateEthRewards\<close> returns the same with either value of the flag
  \<open>checkBeaconPerformance\<close>.
\<close>

theorem approximation_agrees_with_full_run:
  assumes "generateTree rp merkle rangeNodes rangeNetworks r = Inr res"
    and "approximateStakerShareOfSmoothingPool rp r = Inr v"
  shows "v = PoolStakerSmoothingPoolEth (file_TotalRewards (RewardsFile res))
         \<and> calculateEthRewards rp r0 True = calculateEthRewards rp r0 False"
proof
  from assms(1) obtain r1 r2 where rpl: "calculateRplRewards rp (provision r) = Inr r1"
    and eth: "calculateEthRewards rp r1 True = Inr r2"
    and mt: "GenerateMerkleTree merkle
       \<lparr>file_TotalRewards = totals r2, file_NodeRewards = rangeNodes (nodeRewards r2),
        file_NetworkRewards = rangeNetworks (networkRewards r2), MerkleRoot = None\<rparr>
      = Inr (RewardsFile res)"
    by (rule generateTree_cases)
  from assms(2) obtain a where ap: "calculateEthRewards rp (provision r) False = Inr a"
    and v: "v = PoolStakerSmoothingPoolEth (totals a)"
    by (auto simp: approximateStakerShareOfSmoothingPool_def split: sum.splits)
  have "PoolStakerSmoothingPoolEth (totals r2) = PoolStakerSmoothingPoolEth (totals a)"
    using ap eth calculateRplRewards_sameInputs[OF rpl] calculateRplRewards_poolStaker[OF rpl]
    by (rule poolStaker_determined)
  moreover have "file_TotalRewards (RewardsFile res) = totals r2"
    using GenerateMerkleTree_totals[OF mt] by simp
  ultimately show "v = PoolStakerSmoothingPoolEth (file_TotalRewards (RewardsFile res))"
    using v by simp
  show "calculateEthRewards rp r0 True = calculateEthRewards rp r0 False"
    by (simp add: calculateEthRewards_def)
qed

lemma exBase_approximation:
  "approximateStakerShareOfSmoothingPool exClients
     (newTreeGenerator 10 5 3000000 exSnapshot (exRecord 1000000)) = Inr 847500"
proof -
  have n: "SmoothingPoolBalance (Details (networkState exBase)) \<noteq> 0"
    by (simp add: exBase_fields exSnapshot_balance)
  have i: "Index exBase \<noteq> 0"
    by (simp add: exBase_fields)
  have b: "getBlocksAndTimesForInterval exClients
             (exBase\<lparr>smoothingPoolBalance := SmoothingPoolBalance (Details (networkState exBase))\<rparr>) = Inr 1000"
    by (simp add: getBlocksAndTimesForInterval_def exBase_fields exRecord_def exClients_def)
  show ?thesis
    unfolding approximateStakerShareOfSmoothingPool_def exBase_generator[symmetric]
      calculateEthRewards_allocated[OF n i] b
    by (simp add: exBase_def eth_defs bonus_defs ex_defs Let_def)
qed

theorem approximation_agrees_with_full_run_witness:
  "generateTree exClients exMerkle id id (newTreeGenerator 10 5 3000000 exSnapshot (exRecord 1000000))
     = Inr (exTree (exEth (exRpl exBase)))
   \<and> approximateStakerShareOfSmoothingPool exClients
       (newTreeGenerator 10 5 3000000 exSnapshot (exRecord 1000000)) = Inr 847500
   \<and> PoolStakerSmoothingPoolEth (file_TotalRewards (RewardsFile (exTree (exEth (exRpl exBase))))) = 847500"
  using approximation_agrees_with_full_run[OF exBase_tree exBase_approximation]
    exBase_tree exBase_approximation
  by simp

subsection \<open>The order of the materialised lists\<close>

lemma filter_key_distinct:
  "distinct (map f zs) \<Longrightarrow> k \<in> set zs \<Longrightarrow> filter (\<lambda>x. f k = f x) zs = [k]"
proof (induction zs)
  case Nil
  then show ?case by simp
next
  case (Cons z zs)
  show ?case
  proof (cases "k = z")
    case True
    have "filter (\<lambda>x. f z = f x) zs = []"
      using Cons.prems(1) by (auto simp: filter_empty_conv)
    with True show ?thesis by simp
  next
    case False
    with Cons.prems have k: "k \<in> set zs" and "f z \<noteq> f k" by auto
    with Cons.IH Cons.prems(1) show ?thesis by auto
  qed
qed

lemma sort_key_permutation:
  assumes "mset xs = mset ys" and "distinct (map f xs)"
  shows "sort_key f xs = sort_key f ys"
proof (rule properties_for_sort_key)
  show "mset (sort_key f ys) = mset xs" using assms(1) by simp
  show "sorted (map f (sort_key f ys))" by simp
  fix k assume k: "k \<in> set (sort_key f ys)"
  have "mset (map f (sort_key f ys)) = mset (map f xs)" using assms(1) by simp
  then have d: "distinct (map f (sort_key f ys))"
    using assms(2) by (metis mset_eq_imp_distinct_iff)
  have kx: "k \<in> set xs" using k assms(1) by (metis mset_eq_setD set_sort)
  show "filter (\<lambda>x. f k = f x) (sort_key f ys) = filter (\<lambda>x. f k = f x) xs"
    using filter_key_distinct[OF d k] filter_key_distinct[OF assms(2) kx] by simp
qed

lemma GenerateMerkleTree_sorted_cong:
  assumes "sort_key fst ns1 = sort_key fst ns2" and "sort_key fst ws1 = sort_key fst ws2"
  shows "GenerateMerkleTree merkle
           \<lparr>file_TotalRewards = t, file_NodeRewards = ns1, file_NetworkRewards = ws1, MerkleRoot = None\<rparr>
         = GenerateMerkleTree merkle
           \<lparr>file_TotalRewards = t, file_NodeRewards = ns2, file_NetworkRewards = ws2, MerkleRoot = None\<rparr>"
  by (cases "merkle (sort_key fst ns2)") (simp_all add: GenerateMerkleTree_def Let_def assms)

lemma calculateRplRewards_distinct:
  assumes "calculateRplRewards rp r = Inr r1" and "keysDistinct r"
  shows "keysDistinct r1"
proof -
  from assms(1) obtain ra p where c: "collateralRewards rp r = Inr (ra, p)" and o: "oDaoRewards rp ra p = Inr r1"
    by (rule calculateRplRewards_cases)
  from collateralRewards_frame(3)[OF c assms(2)] show ?thesis
    by (rule oDaoRewards_effect(6)[OF o])
qed

text \<open>
  C2. Whatever the order in which the two materialising loops of \<open>generateTree\<close> visit the
  node and the network accumulators, a run on a new generator has the same outcome: the same
  error, or the same total rewards, the same ordered node and network reward lists and the same
  Merkle root. The loops themselves append in map iteration order; the order of the lists is
  the canonical one that the commitment builder gives them, for which no accumulator holds a key
  twice.
\<close>

theorem materialisation_order_does_not_matter:
  assumes "\<forall>xs. mset (rangeNodes1 xs) = mset xs" and "\<forall>xs. mset (rangeNodes2 xs) = mset xs"
    and "\<forall>xs. mset (rangeNetworks1 xs) = mset xs" and "\<forall>xs. mset (rangeNetworks2 xs) = mset xs"
  shows "generateTree rp merkle rangeNodes1 rangeNetworks1
           (newTreeGenerator rulesetVersion index snapshotTime st record)
         = generateTree rp merkle rangeNodes2 rangeNetworks2
           (newTreeGenerator rulesetVersion index snapshotTime st record)"
proof -
  let ?g = "newTreeGenerator rulesetVersion index snapshotTime st record"
  show ?thesis
  proof (cases "calculateRplRewards rp (provision ?g)")
    case (Inl e)
    then show ?thesis by (simp add: generateTree_def)
  next
    case (Inr r1)
    note rpl = this
    show ?thesis
    proof (cases "calculateEthRewards rp r1 True")
      case (Inl e)
      with rpl show ?thesis by (simp add: generateTree_def)
    next
      case (Inr r2)
      have "keysDistinct r1"
        using rpl provision_fresh(4) by (rule calculateRplRewards_distinct)
      with calculateEthRewards_frame[OF Inr] have d: "keysDistinct r2" by simp
      have n: "sort_key fst (rangeNodes1 (nodeRewards r2)) = sort_key fst (rangeNodes2 (nodeRewards r2))"
      proof (rule sort_key_permutation)
        show "mset (rangeNodes1 (nodeRewards r2)) = mset (rangeNodes2 (nodeRewards r2))"
          using assms(1,2) by simp
        have "mset (map fst (rangeNodes1 (nodeRewards r2))) = mset (map fst (nodeRewards r2))"
          using assms(1) by simp
        then show "distinct (map fst (rangeNodes1 (nodeRewards r2)))"
          using d by (metis keysDistinct_def mset_eq_imp_distinct_iff)
      qed
      have w: "sort_key fst (rangeNetworks1 (networkRewards r2))
                 = sort_key fst (rangeNetworks2 (networkRewards r2))"
      proof (rule sort_key_permutation)
        show "mset (rangeNetworks1 (networkRewards r2)) = mset (rangeNetworks2 (networkRewards r2))"
          using assms(3,4) by simp
        have "mset (map fst (rangeNetworks1 (networkRewards r2))) = mset (map fst (networkRewards r2))"
          using assms(3) by simp
        then show "distinct (map fst (rangeNetworks1 (networkRewards r2)))"
          using d by (metis keysDistinct_def mset_eq_imp_distinct_iff)
      qed
      from rpl Inr GenerateMerkleTree_sorted_cong[OF n w, of merkle "totals r2"] show ?thesis
        by (simp add: generateTree_def)
    qed
  qed
qed

theorem materialisation_order_does_not_matter_witness:
  "(\<forall>xs :: (address \<times> NodeReward) list. mset (id xs) = mset xs)
   \<and> (\<forall>xs :: (address \<times> NodeReward) list. mset (rev xs) = mset xs)
   \<and> (\<forall>xs :: (nat \<times> NetworkReward) list. mset (id xs) = mset xs)
   \<and> (\<forall>xs :: (nat \<times> NetworkReward) list. mset (rev xs) = mset xs)
   \<and> generateTree exClients exMerkle id id (newTreeGenerator 10 5 3000000 exSnapshot (exRecord 1000000))
       = generateTree exClients exMerkle rev rev (newTreeGenerator 10 5 3000000 exSnapshot (exRecord 1000000))
   \<and> generateTree exClients exMerkle rev rev (newTreeGenerator 10 5 3000000 exSnapshot (exRecord 1000000))
       = Inr (exTree (exEth (exRpl exBase)))"
  using materialisation_order_does_not_matter
    [of id rev id rev exClients exMerkle 10 5 3000000 exSnapshot "exRecord 1000000"]
    exBase_tree
  by simp

subsection \<open>Cheaters\<close>

lemma cheater_in_getCheaters:
  assumes "nd \<in> set (NodeDetails (networkState r))"
    and "\<exists>mpd \<in> set (MinipoolDetailsByNode (networkState r) (NodeAddress nd)). 3 \<le> PenaltyCount mpd"
  shows "NodeAddress nd \<in> getCheaters r"
  using assms by (auto simp: getCheaters_def isCheater_def list_ex_iff)

lemma cheaterEntry_trans:
  "list_all2 cheaterEntry xs ys \<Longrightarrow> list_all2 cheaterEntry ys zs \<Longrightarrow> list_all2 cheaterEntry xs zs"
  by (rule list_all2_trans[where ?P1.0 = cheaterEntry and ?P2.0 = cheaterEntry])
     (auto simp: cheaterEntry_def)

lemma bonusRel_cheaterEntry: "list_all2 (bonusRel st) nds nds1 \<Longrightarrow> list_all2 cheaterEntry nds nds1"
  by (erule list_all2_mono) (auto simp: bonusRel_def nodeStable_def cheaterEntry_def)

lemma scaleBonuses_cheaterEntry:
  assumes "scaleBonuses rem tot nds = Inr nds2"
  shows "list_all2 cheaterEntry nds nds2"
  using assms
proof (induction nds arbitrary: nds2)
  case Nil
  then show ?case by simp
next
  case (Cons x nds)
  obtain a n where x: "x = (a, n)" by (cases x)
  from Cons.prems x obtain n1 nds1 where
    s: "scaleNodeBonus rem tot n = Inr n1"
    and r: "scaleBonuses rem tot nds = Inr nds1"
    and e: "nds2 = (a, n1) # nds1"
    by (auto split: sum.splits)
  from s obtain ms1 where n1: "n1 = n\<lparr>BonusEth := big_Div (BonusEth n * rem) tot, Minipools := ms1\<rparr>"
    by (auto simp: scaleNodeBonus_def split: sum.splits)
  have "cheaterEntry (a, n) (a, n1)"
    by (simp add: cheaterEntry_def n1 big_Div_def)
  with Cons.IH[OF r] x e show ?case by simp
qed

lemma bonusPhase_cheaterEntry:
  assumes "bonusPhase r nds t = Inr (nds2, scalar)"
  shows "list_all2 cheaterEntry nds nds2"
  using assms
proof (cases rule: bonusPhase_cases)
  case off
  then show ?thesis by (simp add: list_all2_refl cheaterEntry_def split: prod.splits)
next
  case (enough nds1 tot)
  with calculateNodeBonuses_effect[OF enough(2)] show ?thesis
    by (auto dest: bonusRel_cheaterEntry)
next
  case (scaled nds1 tot)
  from calculateNodeBonuses_effect[OF scaled(2)] have "list_all2 cheaterEntry nds nds1"
    by (auto dest: bonusRel_cheaterEntry)
  moreover have "list_all2 cheaterEntry nds1 nds2"
    using scaled(5) by (rule scaleBonuses_cheaterEntry)
  ultimately show ?thesis by (rule cheaterEntry_trans)
qed

lemma awardBonus_cheaterEntry: "list_all2 cheaterEntry nds (map awardBonus nds)"
  by (induction nds) (auto simp: cheaterEntry_def awardBonus_def)

lemma calculateNodeRewards_cheaterEntry:
  assumes "calculateNodeRewards r = Inr (pool, nodeOp, scalar, r1)" and "nodeDetails r = []"
    and "map_of (nodeDetails r1) a = Some nsd"
  shows "a \<in> mp_NodeAddress ` set (fst (GetScores (rollingRecord r) (getCheaters r)))
         \<and> (a \<in> getCheaters r \<longrightarrow> \<not> IsEligible nsd \<and> BonusEth nsd = 0)"
proof -
  obtain ms ts cnt where g: "GetScores (rollingRecord r) (getCheaters r) = (ms, ts, cnt)"
    by (cases "GetScores (rollingRecord r) (getCheaters r)") auto
  from assms(1) g show ?thesis
  proof (cases rule: calculateNodeRewards_cases)
    case nothing
    with assms(2,3) show ?thesis by simp
  next
    case (shares nds nds1)
    note ml = minipoolLoop_effect[OF shares(3)]
    have "list_all2 cheaterEntry nds (nodeDetails r1)"
    proof (cases "10 \<le> RulesetVersion r")
      case True
      with shares(6) have "nodeDetails r1 = map awardBonus nds1" by simp
      with bonusPhase_cheaterEntry[OF shares(4)] awardBonus_cheaterEntry[of nds1] show ?thesis
        by (auto intro: cheaterEntry_trans)
    next
      case False
      with shares(6) bonusPhase_cheaterEntry[OF shares(4)] show ?thesis by simp
    qed
    moreover from assms(3) have "(a, nsd) \<in> set (nodeDetails r1)" by (rule map_of_SomeD)
    ultimately obtain x where x: "x \<in> set nds" and c: "cheaterEntry x (a, nsd)"
      by (blast dest: list_all2_set2)
    obtain a0 n0 where x0: "x = (a0, n0)" by (cases x)
    from c x0 have a0: "a0 = a" by (simp add: cheaterEntry_def)
    from ml x x0 a0 have k: "a \<in> mp_NodeAddress ` set ms" by force
    from ml x have "nodeInvariant (getCheaters r) x" by simp
    with c x0 a0 k g show ?thesis
      by (auto simp: nodeInvariant_def cheaterEntry_def)
  qed
qed

text \<open>
  C4, as amended. A node of the snapshot that owns a minipool with three or more penalties is
  in the cheater set, which is the set handed to the rolling record. After
  \<open>calculateNodeRewards\<close> the node has an entry in the node details only if the record still
  returned one of its minipools, and such an entry is marked ineligible and has no bonus.
\<close>

theorem cheater_is_flagged_and_earns_no_bonus:
  assumes "nd \<in> set (NodeDetails (networkState r))"
    and "\<exists>mpd \<in> set (MinipoolDetailsByNode (networkState r) (NodeAddress nd)). 3 \<le> PenaltyCount mpd"
    and "calculateNodeRewards r = Inr (pool, nodeOp, scalar, r1)" and "nodeDetails r = []"
  shows "NodeAddress nd \<in> getCheaters r
    \<and> (\<forall>nsd. map_of (nodeDetails r1) (NodeAddress nd) = Some nsd \<longrightarrow>
          NodeAddress nd \<in> mp_NodeAddress ` set (fst (GetScores (rollingRecord r) (getCheaters r)))
          \<and> \<not> IsEligible nsd \<and> BonusEth nsd = 0)"
  using cheater_in_getCheaters[OF assms(1,2)] calculateNodeRewards_cheaterEntry[OF assms(3,4)]
  by blast

theorem cheater_is_flagged_and_earns_no_bonus_witness:
  "exNode2 \<in> set (NodeDetails (networkState exCheating))
   \<and> (\<exists>mpd \<in> set (MinipoolDetailsByNode (networkState exCheating) (NodeAddress exNode2)).
          3 \<le> PenaltyCount mpd)
   \<and> calculateNodeRewards exCheating = Inr (847500, 152500, 1000000000000000000, exScored)
   \<and> nodeDetails exCheating = []
   \<and> map_of (nodeDetails exScored) (NodeAddress exNode2) = Some exScoredCheater
   \<and> NodeAddress exNode2 \<in> getCheaters exCheating
   \<and> NodeAddress exNode2
         \<in> mp_NodeAddress ` set (fst (GetScores (rollingRecord exCheating) (getCheaters exCheating)))
   \<and> \<not> IsEligible exScoredCheater \<and> BonusEth exScoredCheater = 0"
proof -
  have a: "exNode2 \<in> set (NodeDetails (networkState exCheating))"
    by (simp add: exCheating_def exSnapshot_def exState_def)
  have b: "\<exists>mpd \<in> set (MinipoolDetailsByNode (networkState exCheating) (NodeAddress exNode2)).
          3 \<le> PenaltyCount mpd"
    by (simp add: exCheating_def exSnapshot_def exState_def exNode2_def exMinipool21_def)
  have c: "calculateNodeRewards exCheating = Inr (847500, 152500, 1000000000000000000, exScored)"
    by (simp add: exScored_def exScoredCheater_def exCheating_def exUnfiltered_def exSnapshot_def
        eth_defs bonus_defs ex_defs Let_def)
  have d: "nodeDetails exCheating = []"
    by (simp add: exCheating_def newTreeGenerator_def provision_def)
  have e: "map_of (nodeDetails exScored) (NodeAddress exNode2) = Some exScoredCheater"
    by (simp add: exScored_def exNode2_def)
  from cheater_is_flagged_and_earns_no_bonus[OF a b c d] a b c d e show ?thesis
    by blast
qed

text \<open>
  C4, as stated, fails: node 2 owns a minipool with three penalties and is in the cheater set,
  and yet its weight of 1 out of 4 earns it 175 of the collateral budget of 700, which the run
  records in full as the total collateral RPL.
\<close>

theorem cheater_still_earns_collateral_rpl:
  "exNode2 \<in> set (NodeDetails exSnapshot)
   \<and> isCheater exSnapshot exNode2
   \<and> NodeAddress exNode2 \<in> getCheaters (newTreeGenerator 10 5 3000000 exSnapshot (exRecord 1000000))
   \<and> CalculateNodeWeights exSnapshot = Inr ([1 \<mapsto> 3, 2 \<mapsto> 1], 4)
   \<and> creditedShare [1 \<mapsto> 3, 2 \<mapsto> 1] (collateralBudget exSnapshot) 4 exNode2 = 175
   \<and> generateTree exClients exMerkle id id (newTreeGenerator 10 5 3000000 exSnapshot (exRecord 1000000))
       = Inr (exTree (exEth (exRpl exBase)))
   \<and> TotalCollateralRpl (file_TotalRewards (RewardsFile (exTree (exEth (exRpl exBase))))) = 700
   \<and> map (\<lambda>(a, n). (a, nr_CollateralRpl n)) (nodeRewards (exRpl exBase)) = [(1, 525), (2, 175)]"
proof -
  have t: "TotalCollateralRpl (totals (exEth (exRpl exBase))) = TotalCollateralRpl (totals (exRpl exBase))"
    using calculateEthRewards_frame[OF exBase_eth] by simp
  have r: "TotalCollateralRpl (totals (exRpl exBase)) = 700"
    "map (\<lambda>(a, n). (a, nr_CollateralRpl n)) (nodeRewards (exRpl exBase)) = [(1, 525), (2, 175)]"
    by (simp_all add: exRpl_def exBase_def rpl_defs ex_defs Let_def)
  have c: "exNode2 \<in> set (NodeDetails exSnapshot)" "isCheater exSnapshot exNode2"
    "NodeAddress exNode2 \<in> getCheaters (newTreeGenerator 10 5 3000000 exSnapshot (exRecord 1000000))"
    "CalculateNodeWeights exSnapshot = Inr ([1 \<mapsto> 3, 2 \<mapsto> 1], 4)"
    "creditedShare [1 \<mapsto> 3, 2 \<mapsto> 1] (collateralBudget exSnapshot) 4 exNode2 = 175"
    by (simp_all add: getCheaters_def isCheater_def creditedShare_def collateralBudget_def
        calculateNodeRplRewards_def big_Div_def big_Quo_def oneEth_def exSnapshot_def ex_defs)
  from exBase_tree t r c show ?thesis by (simp add: exTree_def)
qed

subsection \<open>Scaling with a minipool that has no bonus\<close>

lemma exMixed_rpl:
  "calculateRplRewards exClients (provision exMixed) = Inr (exRpl (provision exMixed))"
  by (simp add: exRpl_def mixed_defs rpl_defs ex_defs Let_def)

lemma exMixed_eth: "calculateEthRewards exClients (exRpl (provision exMixed)) True = Inl Panic"
proof -
  from calculateRplRewards_sameInputs[OF exMixed_rpl]
  have s: "networkState (exRpl (provision exMixed)) = exTwoMinipools"
    "rollingRecord (exRpl (provision exMixed)) = exTwoScores" "Index (exRpl (provision exMixed)) = 5"
    by (simp_all add: sameInputs_def exMixed_def)
  have n: "SmoothingPoolBalance (Details (networkState (exRpl (provision exMixed)))) \<noteq> 0"
    by (simp add: s exTwoMinipools_def exSnapshot_balance)
  have i: "Index (exRpl (provision exMixed)) \<noteq> 0"
    by (simp add: s)
  have b: "getBlocksAndTimesForInterval exClients
             ((exRpl (provision exMixed))\<lparr>smoothingPoolBalance :=
                SmoothingPoolBalance (Details (networkState (exRpl (provision exMixed))))\<rparr>) = Inr 1000"
    by (simp add: getBlocksAndTimesForInterval_def s exTwoScores_def exClients_def)
  show ?thesis
    unfolding calculateEthRewards_allocated[OF n i] b
    by (simp add: exRpl_def mixed_defs eth_defs rpl_defs bonus_defs ex_defs Let_def)
qed

text \<open>
  C6. A run under ruleset 10 whose remaining balance is less than the total consensus bonus
  does not always end with scaled bonuses. Node 1 owns minipool 11, whose fee of 5% earns a
  bonus, and minipool 12, whose fee of 14% is above the floor, so that its bonus is nil. The
  base shares are 100000 of a balance of 1000000, the total consensus bonus is 5250000, more
  than the 900000 that remain, and the scaling dereferences the nil bonus of minipool 12:
  \<open>calculateNodeRewards\<close> panics and \<open>generateTree\<close> returns no result, so that no bonus scalar
  and no scaled bonus is recorded.
\<close>

theorem scaling_panics_on_a_minipool_without_bonus:
  "map_sum id
     (\<lambda>nds. (sumSmoothingPoolEth nds,
             map_sum id (\<lambda>(nds1, totalConsensusBonus).
                           (totalConsensusBonus, map MinipoolBonus (allMinipools nds1)))
               (calculateNodeBonuses exTwoMinipools nds)))
     (minipoolLoop exTwoMinipools (getCheaters exMixed)
        (totalNodeOpShare 1000000 20000000000000000000 200) 20000000000000000000
        (fst (GetScores exTwoScores (getCheaters exMixed))) [])
     = Inr (100000, Inr (5250000, [Some 5250000, None]))
   \<and> SmoothingPoolBalance (Details exTwoMinipools) - 100000 < 5250000
   \<and> calculateNodeRewards ((provision exMixed)\<lparr>smoothingPoolBalance := 1000000\<rparr>) = Inl Panic
   \<and> generateTree exClients exMerkle id id exMixed = Inl Panic"
proof -
  have a: "map_sum id
     (\<lambda>nds. (sumSmoothingPoolEth nds,
             map_sum id (\<lambda>(nds1, totalConsensusBonus).
                           (totalConsensusBonus, map MinipoolBonus (allMinipools nds1)))
               (calculateNodeBonuses exTwoMinipools nds)))
     (minipoolLoop exTwoMinipools (getCheaters exMixed)
        (totalNodeOpShare 1000000 20000000000000000000 200) 20000000000000000000
        (fst (GetScores exTwoScores (getCheaters exMixed))) [])
     = Inr (100000, Inr (5250000, [Some 5250000, None]))"
    by (simp add: allMinipools_def mixed_defs eth_defs bonus_defs ex_defs Let_def)
  have b: "SmoothingPoolBalance (Details exTwoMinipools) - 100000 < 5250000"
    by (simp add: exTwoMinipools_def exSnapshot_balance)
  have c: "calculateNodeRewards ((provision exMixed)\<lparr>smoothingPoolBalance := 1000000\<rparr>) = Inl Panic"
    by (simp add: mixed_defs eth_defs bonus_defs ex_defs Let_def)
  have d: "generateTree exClients exMerkle id id exMixed = Inl Panic"
    using exMixed_rpl exMixed_eth by (simp add: generateTree_def)
  from a b c d show ?thesis by blast
qed

end
